theory Spec2Isabelle
  imports Main "HOL-Library.Sublist" "HOL-Library.AList"
begin

section \<open>Python values, exceptions and string operations\<close>

text \<open>
  The two plugins are Python. Exceptions are values: a computation that may raise returns
  \<open>pyexc + 'a\<close>, with \<open>Inl e\<close> for \<open>raise e\<close>. A path is the string of its bytes, as
  the operating system takes it; the operations on paths below are the \<open>str\<close> methods the
  plugins call. A string that \<open>int()\<close> converts is the list of its Unicode code points.
\<close>

datatype pyexc =
    ValueError
  | TypeError
  | OverflowError
  | AttributeError
  | OSError string

text \<open>
  A finite Python float is a dyadic rational \<open>m * 2 ^ e\<close>; the three special values are
  kept apart because \<open>int()\<close> treats them differently.
\<close>

datatype pyfloat = Finite int int | PosInf | NegInf | NaN

text \<open>
  A value of the host's configuration dictionary. \<open>PObject\<close> stands for any value
  without an integer conversion (a list, a dict, ...).
\<close>

datatype pyval =
    PNone
  | PBool bool
  | PInt int
  | PFloat pyfloat
  | PStr "nat list"
  | PObject

text \<open>The code points of a string of ASCII characters.\<close>

definition ustr :: "string \<Rightarrow> nat list" where
  "ustr s = map of_char s"

text \<open>
  The white space that \<open>int()\<close> skips before and after the digits: the six ASCII
  characters of C's \<open>isspace\<close>, and the Unicode white space beyond ASCII. The four
  separators \<open>0x1C\<close> to \<open>0x1F\<close>, white space for \<open>str.isspace\<close>, are not skipped.
\<close>

definition int_spaces :: "nat list" where
  "int_spaces =
     [0x09, 0x0A, 0x0B, 0x0C, 0x0D, 0x20, 0x85, 0xA0, 0x1680,
      0x2000, 0x2001, 0x2002, 0x2003, 0x2004, 0x2005, 0x2006, 0x2007, 0x2008,
      0x2009, 0x200A, 0x2028, 0x2029, 0x202F, 0x205F, 0x3000]"

definition py_isspace :: "nat \<Rightarrow> bool" where
  "py_isspace c \<longleftrightarrow> c \<in> set int_spaces"

definition py_strip :: "nat list \<Rightarrow> nat list" where
  "py_strip s = rev (dropWhile py_isspace (rev (dropWhile py_isspace s)))"

text \<open>
  The decimal digits of Unicode 14 (Python 3.11) come in blocks of ten consecutive code
  points; these are the code points of the zeros.
\<close>

definition decimal_zeros :: "nat list" where
  "decimal_zeros =
     [0x30, 0x660, 0x6F0, 0x7C0, 0x966, 0x9E6, 0xA66, 0xAE6, 0xB66,
      0xBE6, 0xC66, 0xCE6, 0xD66, 0xDE6, 0xE50, 0xED0, 0xF20, 0x1040,
      0x1090, 0x17E0, 0x1810, 0x1946, 0x19D0, 0x1A80, 0x1A90, 0x1B50, 0x1BB0,
      0x1C40, 0x1C50, 0xA620, 0xA8D0, 0xA900, 0xA9D0, 0xA9F0, 0xAA50, 0xABF0,
      0xFF10, 0x104A0, 0x10D30, 0x11066, 0x110F0, 0x11136, 0x111D0, 0x112F0, 0x11450,
      0x114D0, 0x11650, 0x116C0, 0x11730, 0x118E0, 0x11950, 0x11C50, 0x11D50, 0x11DA0,
      0x16A60, 0x16AC0, 0x16B50, 0x1D7CE, 0x1D7D8, 0x1D7E2, 0x1D7EC, 0x1D7F6, 0x1E140,
      0x1E2F0, 0x1E950, 0x1FBF0]"

definition digit_val :: "nat \<Rightarrow> nat option" where
  "digit_val c =
     (case find (\<lambda>z. z \<le> c \<and> c < z + 10) decimal_zeros of
        None \<Rightarrow> None
      | Some z \<Rightarrow> Some (c - z))"

text \<open>
  The digits of an integer literal as \<open>int(str)\<close> accepts them: decimal digits, with single
  underscores allowed between two digits. The flag says whether the previous character was
  a digit; the result is the value and the number of digits read.
\<close>

fun parse_digits :: "nat list \<Rightarrow> nat \<Rightarrow> nat \<Rightarrow> bool \<Rightarrow> (nat \<times> nat) option" where
  "parse_digits [] acc cnt prev = (if prev then Some (acc, cnt) else None)"
| "parse_digits (c # cs) acc cnt prev =
     (if c = 0x5F then (if prev then parse_digits cs acc cnt False else None)
      else (case digit_val c of
              None \<Rightarrow> None
            | Some d \<Rightarrow> parse_digits cs (10 * acc + d) (Suc cnt) True))"

text \<open>
  \<open>int(s)\<close> for a string: \<open>None\<close> stands for \<open>ValueError\<close>, which is also what a literal
  of more than \<open>sys.int_info.default_max_str_digits\<close> digits raises.
\<close>

definition max_str_digits :: nat where
  "max_str_digits = 4300"

definition int_of_str :: "nat list \<Rightarrow> int option" where
  "int_of_str s =
     (case py_strip s of
        [] \<Rightarrow> None
      | c # cs \<Rightarrow>
          (case parse_digits (if c = 0x2D \<or> c = 0x2B then cs else c # cs) 0 0 False of
             None \<Rightarrow> None
           | Some (n, cnt) \<Rightarrow>
               if cnt > max_str_digits then None
               else Some (if c = 0x2D then - int n else int n)))"

text \<open>Truncation of the finite float \<open>m * 2 ^ e\<close> towards zero.\<close>

definition float_trunc :: "int \<Rightarrow> int \<Rightarrow> int" where
  "float_trunc m e =
     (if 0 \<le> e then m * 2 ^ nat e
      else if 0 \<le> m then m div 2 ^ nat (- e)
      else - ((- m) div 2 ^ nat (- e)))"

text \<open>
  Python's \<open>int(v)\<close>: what it returns, or which exception it raises. An infinite float
  raises \<open>OverflowError\<close>, which is not a \<open>ValueError\<close>.
\<close>

fun py_int :: "pyval \<Rightarrow> pyexc + int" where
  "py_int PNone = Inl TypeError"
| "py_int (PBool b) = Inr (if b then 1 else 0)"
| "py_int (PInt n) = Inr n"
| "py_int (PFloat (Finite m e)) = Inr (float_trunc m e)"
| "py_int (PFloat PosInf) = Inl OverflowError"
| "py_int (PFloat NegInf) = Inl OverflowError"
| "py_int (PFloat NaN) = Inl ValueError"
| "py_int (PStr s) = (case int_of_str s of None \<Rightarrow> Inl ValueError | Some n \<Rightarrow> Inr n)"
| "py_int PObject = Inl TypeError"

text \<open>\<open>s.replace(old, new)\<close> for a one-character \<open>old\<close> and \<open>new\<close>.\<close>

definition replace_char :: "char \<Rightarrow> char \<Rightarrow> string \<Rightarrow> string" where
  "replace_char old new s = map (\<lambda>c. if c = old then new else c) s"

text \<open>\<open>s.replace(old, new, 1)\<close>: the first occurrence of \<open>old\<close>, scanning from the left.\<close>

fun replace_first :: "string \<Rightarrow> string \<Rightarrow> string \<Rightarrow> string" where
  "replace_first old new [] = (if old = [] then new else [])"
| "replace_first old new (c # cs) =
     (if prefix old (c # cs) then new @ drop (length old) (c # cs)
      else c # replace_first old new cs)"

text \<open>\<open>s.split(c)\<close> for a one-character separator: never the empty list.\<close>

fun split_on :: "char \<Rightarrow> string \<Rightarrow> string list" where
  "split_on c [] = [[]]"
| "split_on c (x # xs) =
     (if x = c then [] # split_on c xs
      else (case split_on c xs of
              [] \<Rightarrow> [[x]]
            | p # ps \<Rightarrow> (x # p) # ps))"

text \<open>\<open>sep.join(parts)\<close> for the separator \<open>/\<close>.\<close>

fun join_slash :: "string list \<Rightarrow> string" where
  "join_slash [] = []"
| "join_slash [p] = p"
| "join_slash (p # q # ps) = p @ CHR ''/'' # join_slash (q # ps)"

section \<open>Configuration: the batching delay (\<open>init_plugin\<close>)\<close>

text \<open>
  \<open>init_plugin config d\<close> is the value of \<open>_batch_delay\<close> after \<open>init_plugin(config)\<close>
  on a plugin whose \<open>_batch_delay\<close> was \<open>d\<close>, or the exception that leaves the function.
  \<open>config\<close> is \<open>None\<close> or a dictionary; \<open>if config:\<close> is false for both \<open>None\<close> and the
  empty dictionary, and then nothing is assigned. The other assignments of the function
  (enable flag, server name, mapping table) neither read nor write the delay.
\<close>

definition init_plugin :: "(string \<times> pyval) list option \<Rightarrow> int \<Rightarrow> pyexc + int" where
  "init_plugin config d =
     (case config of
        None \<Rightarrow> Inr d
      | Some kvs \<Rightarrow>
          if kvs = [] then Inr d
          else
            (case py_int (case map_of kvs ''batch_delay'' of None \<Rightarrow> PInt 60 | Some v \<Rightarrow> v) of
               Inr n \<Rightarrow> Inr (if n < 10 then 10 else if n > 300 then 300 else n)
             | Inl e \<Rightarrow> if e = ValueError \<or> e = TypeError then Inr 60 else Inl e))"

section \<open>Paths (\<open>pathlib\<close>, POSIX flavour)\<close>

text \<open>
  \<open>Path(s)\<close> keeps a root (\<open>/\<close>, \<open>//\<close> for exactly two leading slashes, or none) and the
  components between slashes, dropping empty components and \<open>.\<close>.
\<close>

record pure_path =
  root :: string
  parts :: "string list"

definition splitroot :: "string \<Rightarrow> string \<times> string" where
  "splitroot p =
     (if take 1 p \<noteq> ''/'' then ([], p)
      else if take 1 (drop 1 p) \<noteq> ''/'' \<or> take 1 (drop 2 p) = ''/'' then (''/'', drop 1 p)
      else (''//'', drop 2 p))"

definition Path :: "string \<Rightarrow> pure_path" where
  "Path s =
     (let (r, rel) = splitroot s
      in \<lparr>root = r, parts = filter (\<lambda>x. x \<noteq> [] \<and> x \<noteq> ''.'') (split_on CHR ''/'' rel)\<rparr>)"

definition path_str :: "pure_path \<Rightarrow> string" where
  "path_str p =
     (let s = root p @ join_slash (parts p) in if s = [] then ''.'' else s)"

definition path_parent :: "pure_path \<Rightarrow> pure_path" where
  "path_parent p = (if parts p = [] then p else p\<lparr>parts := butlast (parts p)\<rparr>)"

definition path_name :: "pure_path \<Rightarrow> string" where
  "path_name p = (if parts p = [] then [] else last (parts p))"

section \<open>The host's file system\<close>

text \<open>
  What the file system holds under a name: nothing, a regular file (with the number of its
  inode), a directory, a symbolic link (with the path it points to, taken as resolved), or
  something else (a device, a socket). A path of the media server's name space usually
  does not exist on the plugin's host at all.
\<close>

datatype fs_node = Missing | RegularFile nat | Directory | Symlink string | OtherNode

text \<open>
  What \<open>stat\<close> finds under a name: it follows symbolic links, at most \<open>40\<close> of them. A
  link that points to nothing, and a chain of links that does not end, give \<open>Missing\<close>:
  \<open>pathlib\<close> treats the errors \<open>ENOENT\<close>, \<open>ENOTDIR\<close>, \<open>EBADF\<close> and \<open>ELOOP\<close> alike,
  as "there is nothing".
\<close>

fun follow :: "nat \<Rightarrow> (string \<Rightarrow> fs_node) \<Rightarrow> string \<Rightarrow> fs_node" where
  "follow 0 fs p = Missing"
| "follow (Suc n) fs p = (case fs p of Symlink target \<Rightarrow> follow n fs target | node \<Rightarrow> node)"

definition max_links :: nat where
  "max_links = 40"

text \<open>
  The calls on the file system. \<open>fault\<close> stands for the failures that the name space
  alone does not decide (a permission, a name that is too long for the file system, a link
  across devices, an I/O error): it gives the message of the \<open>OSError\<close> that the call
  then raises. A path with a null byte raises \<open>ValueError\<close> before the system is asked.
\<close>

datatype fs_op = OpStat string | OpUnlink string | OpLink string string

definition os_stat ::
  "(string \<Rightarrow> fs_node) \<Rightarrow> (fs_op \<Rightarrow> string option) \<Rightarrow> string \<Rightarrow> pyexc + fs_node" where
  "os_stat fs fault p =
     (if CHR 0x00 \<in> set p then Inl ValueError
      else (case fault (OpStat p) of
              Some msg \<Rightarrow> Inl (OSError msg)
            | None \<Rightarrow> Inr (follow max_links fs p)))"

text \<open>
  \<open>Path.is_file()\<close> and \<open>Path.exists()\<close> (Python 3.11): both call \<open>stat\<close>, answer
  \<open>False\<close> when there is nothing or the path cannot be encoded, and let every other
  \<open>OSError\<close> pass.
\<close>

definition is_file ::
  "(string \<Rightarrow> fs_node) \<Rightarrow> (fs_op \<Rightarrow> string option) \<Rightarrow> pure_path \<Rightarrow> pyexc + bool" where
  "is_file fs fault p =
     (case os_stat fs fault (path_str p) of
        Inl e \<Rightarrow> if e = ValueError then Inr False else Inl e
      | Inr node \<Rightarrow> Inr (case node of RegularFile i \<Rightarrow> True | _ \<Rightarrow> False))"

definition path_exists ::
  "(string \<Rightarrow> fs_node) \<Rightarrow> (fs_op \<Rightarrow> string option) \<Rightarrow> pure_path \<Rightarrow> pyexc + bool" where
  "path_exists fs fault p =
     (case os_stat fs fault (path_str p) of
        Inl e \<Rightarrow> if e = ValueError then Inr False else Inl e
      | Inr node \<Rightarrow> Inr (node \<noteq> Missing))"

definition is_dir :: "(string \<Rightarrow> fs_node) \<Rightarrow> pure_path \<Rightarrow> bool" where
  "is_dir fs p \<longleftrightarrow> follow max_links fs (path_str p) = Directory"

text \<open>
  \<open>Path.unlink()\<close> removes the name itself, also when it is a symbolic link; it does not
  remove a directory.
\<close>

definition os_unlink ::
  "(string \<Rightarrow> fs_node) \<Rightarrow> (fs_op \<Rightarrow> string option) \<Rightarrow> string \<Rightarrow> pyexc + (string \<Rightarrow> fs_node)" where
  "os_unlink fs fault p =
     (if CHR 0x00 \<in> set p then Inl ValueError
      else (case fault (OpUnlink p) of
              Some msg \<Rightarrow> Inl (OSError msg)
            | None \<Rightarrow>
                (case fs p of
                   Missing \<Rightarrow> Inl (OSError ''No such file or directory'')
                 | Directory \<Rightarrow> Inl (OSError ''Is a directory'')
                 | node \<Rightarrow> Inr (fs(p := Missing)))))"

text \<open>
  \<open>os.link(src, dest)\<close>: the new name must be free (a symbolic link that points to
  nothing occupies its name) and stand in a directory; the source is not followed.
\<close>

definition os_link ::
  "(string \<Rightarrow> fs_node) \<Rightarrow> (fs_op \<Rightarrow> string option) \<Rightarrow> string \<Rightarrow> string \<Rightarrow>
   pyexc + (string \<Rightarrow> fs_node)" where
  "os_link fs fault src dest =
     (if CHR 0x00 \<in> set src \<or> CHR 0x00 \<in> set dest then Inl ValueError
      else (case fault (OpLink src dest) of
              Some msg \<Rightarrow> Inl (OSError msg)
            | None \<Rightarrow>
                (case fs src of
                   Missing \<Rightarrow> Inl (OSError ''No such file or directory'')
                 | Directory \<Rightarrow> Inl (OSError ''Operation not permitted'')
                 | node \<Rightarrow>
                     if fs dest \<noteq> Missing then Inl (OSError ''File exists'')
                     else if follow max_links fs (path_str (path_parent (Path dest))) \<noteq> Directory
                     then Inl (OSError ''No such file or directory'')
                     else Inr (fs(dest := node)))))"

section \<open>The batching key (\<open>_get_parent_path\<close>)\<close>

definition media_exts :: "string list" where
  "media_exts = [''.mkv'', ''.mp4'', ''.avi'', ''.ts'', ''.m2ts'']"

definition has_media_ext :: "string \<Rightarrow> bool" where
  "has_media_ext name \<longleftrightarrow> list_ex (\<lambda>ext. suffix ext name) media_exts"

text \<open>
  \<open>_get_parent_path\<close>: the batching key of a path. \<open>path.is_file()\<close> is the first
  operand of the \<open>or\<close>, so it is called for every path, and what it raises leaves the
  function.
\<close>

definition get_parent_path ::
  "(string \<Rightarrow> fs_node) \<Rightarrow> (fs_op \<Rightarrow> string option) \<Rightarrow> string \<Rightarrow> pyexc + string" where
  "get_parent_path fs fault file_path =
     (let path = Path file_path;
          parent = path_parent path
      in case is_file fs fault path of
           Inl e \<Rightarrow> Inl e
         | Inr f \<Rightarrow>
             Inr (if f \<or> has_media_ext (path_name path)
                  then path_str parent
                  else path_str path))"


section \<open>The media server's HTTP interface\<close>

text \<open>
  The service object the host hands out: the four attributes \<open>_get_plex_connection_info\<close>
  reads with \<open>getattr(..., None)\<close>.
\<close>

record plex_instance =
  host_private :: "string option"
  host_public :: "string option"
  token_private :: "string option"
  token_public :: "string option"

text \<open>
  A \<open>requests.get\<close>: it raises (connection error, timeout), or returns a status and a body.
\<close>

datatype 'a response = RequestFailed | Response nat 'a

text \<open>
  A \<open>Directory\<close> element of the \<open>/library/sections\<close> document. \<open>Element.get\<close> returns
  \<open>None\<close> for an attribute the element does not carry, so every attribute is optional,
  also the \<open>path\<close> of a \<open>Location\<close> child.
\<close>

record xml_directory =
  dir_title :: "string option"
  dir_key :: "string option"
  dir_type :: "string option"
  dir_locations :: "string option list"

record library =
  l_id :: "string option"
  l_type :: "string option"
  l_locations :: "string option list"

text \<open>
  The world outside the plugin during one call of \<open>_refresh_plex_path_http\<close>: what the
  \<open>plex_service\<close> property returns, and what the two requests answer. The body of the
  sections request is \<open>None\<close> when it is not well-formed XML.
\<close>

record upstream =
  service :: "plex_instance option"
  get_sections :: "string \<Rightarrow> string \<Rightarrow> xml_directory list option response"
  get_refresh :: "string \<Rightarrow> string \<Rightarrow> string \<Rightarrow> unit response"

text \<open>\<open>a or b\<close> on optional strings: \<open>None\<close> and the empty string are false.\<close>

definition py_or :: "string option \<Rightarrow> string option \<Rightarrow> string option" where
  "py_or a b = (case a of None \<Rightarrow> b | Some x \<Rightarrow> if x = [] then b else a)"

definition rstrip_slash :: "string \<Rightarrow> string" where
  "rstrip_slash s = rev (dropWhile (\<lambda>c. c = CHR ''/'') (rev s))"

text \<open>\<open>raise_for_status\<close> raises for the statuses 400 to 599.\<close>

definition raises_for_status :: "nat \<Rightarrow> bool" where
  "raises_for_status st \<longleftrightarrow> 400 \<le> st \<and> st < 600"

text \<open>An f-string prints \<open>None\<close> for a missing attribute.\<close>

definition py_str :: "string option \<Rightarrow> string" where
  "py_str v = (case v of None \<Rightarrow> ''None'' | Some s \<Rightarrow> s)"

definition get_plex_connection_info :: "plex_instance option \<Rightarrow> (string \<times> string) option" where
  "get_plex_connection_info svc =
     (case svc of
        None \<Rightarrow> None
      | Some plex_instance \<Rightarrow>
          (case (py_or (host_private plex_instance) (host_public plex_instance),
                 py_or (token_private plex_instance) (token_public plex_instance)) of
             (Some plex_url, Some plex_token) \<Rightarrow>
               if plex_url = [] \<or> plex_token = [] then None
               else Some (rstrip_slash (if prefix ''http'' plex_url then plex_url
                                        else ''http://'' @ plex_url),
                          plex_token)
           | _ \<Rightarrow> None))"

text \<open>
  \<open>_get_library_info\<close>: the dictionary from library title to library data, in insertion
  order; the empty dictionary when anything in the \<open>try\<close> block raises.
\<close>

definition get_library_info ::
  "upstream \<Rightarrow> string \<Rightarrow> string \<Rightarrow> (string option \<times> library) list" where
  "get_library_info u plex_url plex_token =
     (case get_sections u (plex_url @ ''/library/sections'') plex_token of
        RequestFailed \<Rightarrow> []
      | Response st body \<Rightarrow>
          if raises_for_status st then []
          else (case body of
                  None \<Rightarrow> []
                | Some directories \<Rightarrow>
                    fold (\<lambda>d library_info.
                            AList.update (dir_title d)
                              \<lparr>l_id = dir_key d, l_type = dir_type d,
                               l_locations = dir_locations d\<rparr> library_info)
                         directories []))"

text \<open>
  The two loops of \<open>_find_matching_library\<close>. The accumulator is \<open>(best_match,
  max_match_length)\<close>. \<open>location.replace\<close> on a location that is \<open>None\<close> raises
  \<open>AttributeError\<close>; nothing in the function catches it.
\<close>

fun scan_locations ::
  "string \<Rightarrow> string option \<times> string option \<Rightarrow> string option list \<Rightarrow>
   (string option \<times> string option) option \<times> nat \<Rightarrow>
   pyexc + ((string option \<times> string option) option \<times> nat)" where
  "scan_locations target lib [] acc = Inr acc"
| "scan_locations target lib (None # ls) acc = Inl AttributeError"
| "scan_locations target lib (Some l # ls) (best_match, max_match_length) =
     (let location = replace_char (CHR 0x5C) CHR ''/'' l
      in scan_locations target lib ls
           (if prefix location target \<and> length location > max_match_length
            then (Some lib, length location)
            else (best_match, max_match_length)))"

fun scan_libraries ::
  "string \<Rightarrow> (string option \<times> library) list \<Rightarrow>
   (string option \<times> string option) option \<times> nat \<Rightarrow>
   pyexc + ((string option \<times> string option) option \<times> nat)" where
  "scan_libraries target [] acc = Inr acc"
| "scan_libraries target ((lib_name, lib_data) # libs) acc =
     (case scan_locations target (lib_name, l_id lib_data) (l_locations lib_data) acc of
        Inl e \<Rightarrow> Inl e
      | Inr acc' \<Rightarrow> scan_libraries target libs acc')"

definition find_matching_library ::
  "string \<Rightarrow> (string option \<times> library) list \<Rightarrow>
   pyexc + (string option \<times> string option) option" where
  "find_matching_library target_path library_info =
     (case scan_libraries (replace_char (CHR 0x5C) CHR ''/'' target_path) library_info (None, 0) of
        Inl e \<Rightarrow> Inl e
      | Inr (best_match, max_match_length) \<Rightarrow> Inr best_match)"

text \<open>
  \<open>_refresh_plex_path_http\<close>. The call of \<open>_find_matching_library\<close> stands before the
  \<open>try\<close> block, so its exception leaves the function; everything after it is caught.
\<close>

definition refresh_plex_path_http :: "upstream \<Rightarrow> string \<Rightarrow> pyexc + bool" where
  "refresh_plex_path_http u target_path =
     (case get_plex_connection_info (service u) of
        None \<Rightarrow> Inr False
      | Some (plex_url, plex_token) \<Rightarrow>
          (let library_info = get_library_info u plex_url plex_token
           in if library_info = [] then Inr False
              else (case find_matching_library target_path library_info of
                      Inl e \<Rightarrow> Inl e
                    | Inr None \<Rightarrow> Inr False
                    | Inr (Some (lib_name, lib_id)) \<Rightarrow>
                        (case get_refresh u
                                (plex_url @ ''/library/sections/'' @ py_str lib_id @ ''/refresh'')
                                target_path plex_token of
                           RequestFailed \<Rightarrow> Inr False
                         | Response st body \<Rightarrow>
                             if raises_for_status st then Inr False
                             else Inr (st = 200)))))"


section \<open>The batched refresh scheduler\<close>

text \<open>
  A \<open>threading.Timer\<close> object: the key it was created for (its \<open>args\<close>), the time at
  which its wait ends, its event \<open>finished\<close>, and where its thread stands. The thread
  runs \<^verbatim>\<open>self.finished.wait(self.interval)\<close>, then
  \<^verbatim>\<open>if not self.finished.is_set(): self.function(*self.args)\<close>, then
  \<^verbatim>\<open>self.finished.set()\<close>. It is \<open>Waiting\<close> up to its test of \<open>finished\<close>,
  \<open>Running\<close> from a test that found the event unset up to the return of the function,
  and \<open>Ended\<close> afterwards. \<open>cancel()\<close> sets the event and does nothing else: it stops a
  timer that has not made its test yet, and not one that has. \<open>is_alive()\<close> holds until
  the thread has ended.
\<close>

datatype timer_phase = Waiting | Running | Ended

record timer =
  timer_key :: string
  deadline :: nat
  finished :: bool
  phase :: timer_phase

definition timer_cancel :: "timer \<Rightarrow> timer" where
  "timer_cancel t = t\<lparr>finished := True\<rparr>"

definition is_alive :: "timer \<Rightarrow> bool" where
  "is_alive t \<longleftrightarrow> phase t \<noteq> Ended"

text \<open>
  What happens, in order: a call of \<open>_schedule_batch_refresh\<close> with the time of the call,
  the call of \<open>_execute_batch_refresh\<close> by a timer, the start of a batch with the paths
  it captured, a call of \<open>_refresh_plex_path_http\<close> with its outcome, and a pause.
\<close>

datatype effect =
    ScheduleCalled string nat
  | TimerFired nat string
  | BatchStart string "string list"
  | HttpRefresh string "pyexc + bool"
  | Sleep nat

text \<open>
  The plugin's state. The two dictionaries are association lists in insertion order, as
  Python keeps them; a pending set is the list of its members without repetition, whose
  order stands for the iteration order of the Python set. \<open>timer_heap\<close> holds every
  timer object ever created, \<open>refresh_timers\<close> refers to them by position.
  \<open>waiting_calls\<close> holds the calls of \<open>_schedule_batch_refresh\<close> that have computed
  their key and have not entered the lock yet, each with its key and its path. \<open>now\<close> is
  the clock, in seconds; \<open>http_calls\<close> counts the calls of \<open>_refresh_plex_path_http\<close>.
\<close>

record plugin =
  enabled :: bool
  path_maps :: "(string option \<times> string option) list"
  batch_delay :: int
  pending_refreshes :: "(string \<times> string list) list"
  refresh_timers :: "(string \<times> nat) list"
  timer_heap :: "timer list"
  waiting_calls :: "(string \<times> string) list"
  now :: nat
  http_calls :: nat
  trace :: "effect list"

definition set_add :: "'a \<Rightarrow> 'a list \<Rightarrow> 'a list" where
  "set_add x xs = (if x \<in> set xs then xs else xs @ [x])"

definition heap_map :: "nat \<Rightarrow> (timer \<Rightarrow> timer) \<Rightarrow> timer list \<Rightarrow> timer list" where
  "heap_map i f h = (if i < length h then h[i := f (h ! i)] else h)"

text \<open>
  The body of \<open>_schedule_batch_refresh\<close> under the lock, for the key \<open>parent_path\<close>
  computed before. \<open>float(self._batch_delay)\<close> seconds from \<open>now\<close> is the new timer's
  deadline; a negative interval ends at once.
\<close>

definition schedule_locked :: "string \<Rightarrow> string \<Rightarrow> plugin \<Rightarrow> plugin" where
  "schedule_locked parent_path plex_path s =
     (let paths = set_add plex_path
                    (case map_of (pending_refreshes s) parent_path of
                       None \<Rightarrow> []
                     | Some ps \<Rightarrow> ps);
          heap = (case map_of (refresh_timers s) parent_path of
                    None \<Rightarrow> timer_heap s
                  | Some i \<Rightarrow> heap_map i timer_cancel (timer_heap s));
          new_timer = \<lparr>timer_key = parent_path,
                       deadline = now s + nat (batch_delay s),
                       finished = False, phase = Waiting\<rparr>
      in s\<lparr>pending_refreshes := AList.update parent_path paths (pending_refreshes s),
           refresh_timers := AList.update parent_path (length heap) (refresh_timers s),
           timer_heap := heap @ [new_timer]\<rparr>)"

text \<open>
  \<open>_schedule_batch_refresh\<close> in one piece: the key is computed before the lock is taken,
  and an exception of \<open>_get_parent_path\<close> leaves the function with the state untouched.
\<close>

definition schedule_batch_refresh ::
  "(string \<Rightarrow> fs_node) \<Rightarrow> (fs_op \<Rightarrow> string option) \<Rightarrow> string \<Rightarrow> plugin \<Rightarrow> pyexc + plugin" where
  "schedule_batch_refresh fs fault plex_path s =
     (case get_parent_path fs fault plex_path of
        Inl e \<Rightarrow> Inl e
      | Inr parent_path \<Rightarrow> Inr (schedule_locked parent_path plex_path s))"

text \<open>
  One call of \<open>_refresh_plex_path_http\<close> from the scheduler: the \<open>n\<close>-th call meets the
  outside world \<open>world n\<close>.
\<close>

definition call_refresh :: "(nat \<Rightarrow> upstream) \<Rightarrow> string \<Rightarrow> plugin \<Rightarrow> (pyexc + bool) \<times> plugin" where
  "call_refresh world path s =
     (let r = refresh_plex_path_http (world (http_calls s)) path
      in (r, s\<lparr>http_calls := Suc (http_calls s),
               trace := trace s @ [HttpRefresh path r]\<rparr>))"

text \<open>
  The body of the fallback loop: the call and the pause of one second stand in one
  \<open>try\<close> block, so a call that raises is logged and is not followed by the pause.
\<close>

definition refresh_single :: "(nat \<Rightarrow> upstream) \<Rightarrow> string \<Rightarrow> plugin \<Rightarrow> plugin" where
  "refresh_single world path s =
     (case call_refresh world path s of
        (Inl e, s') \<Rightarrow> s'
      | (Inr b, s') \<Rightarrow> s'\<lparr>trace := trace s' @ [Sleep 1]\<rparr>)"

text \<open>
  \<open>_execute_batch_refresh\<close>: the critical section takes the pending set and deletes both
  entries of the key, whichever timer the entry of \<open>_refresh_timers\<close> refers to; the
  requests follow outside the lock. The result is \<open>Inl e\<close> when the function raises: the
  batched call is not inside a \<open>try\<close> block.
\<close>

definition execute_batch_refresh ::
  "(nat \<Rightarrow> upstream) \<Rightarrow> string \<Rightarrow> plugin \<Rightarrow> (pyexc + unit) \<times> plugin" where
  "execute_batch_refresh world parent_path s =
     (case map_of (pending_refreshes s) parent_path of
        None \<Rightarrow> (Inr (), s)
      | Some paths_to_refresh \<Rightarrow>
          (let s1 = s\<lparr>pending_refreshes := AList.delete parent_path (pending_refreshes s),
                      refresh_timers := AList.delete parent_path (refresh_timers s)\<rparr>
           in if paths_to_refresh = [] then (Inr (), s1)
              else (case call_refresh world parent_path
                           (s1\<lparr>trace := trace s1 @ [BatchStart parent_path paths_to_refresh]\<rparr>) of
                      (Inl e, s2) \<Rightarrow> (Inl e, s2)
                    | (Inr success, s2) \<Rightarrow>
                        if success then (Inr (), s2)
                        else (Inr (), fold (refresh_single world) paths_to_refresh s2))))"

text \<open>\<open>stop_service\<close>: cancel every timer of the dictionary that is alive, clear both.\<close>

definition stop_service :: "plugin \<Rightarrow> plugin" where
  "stop_service s =
     s\<lparr>timer_heap :=
         fold (\<lambda>i h. heap_map i (\<lambda>t. if is_alive t then timer_cancel t else t) h)
              (map snd (refresh_timers s)) (timer_heap s),
       refresh_timers := [],
       pending_refreshes := []\<rparr>"

text \<open>
  The thread of timer \<open>i\<close>, in its two steps. \<open>timer_wake\<close>: the wait ends, because the
  event was set or the deadline has come, and the thread tests the event; a timer whose
  event is set ends, the others go on to call their function. \<open>timer_call\<close>: the thread
  calls \<open>_execute_batch_refresh\<close> with its key, which begins by taking the lock, and ends;
  when the call raises, the thread ends without setting the event. Between the two steps
  other threads run: the test is not made under the lock.
\<close>

definition timer_wake :: "nat \<Rightarrow> plugin \<Rightarrow> plugin" where
  "timer_wake i s =
     (if i < length (timer_heap s) \<and> phase (timer_heap s ! i) = Waiting
         \<and> (finished (timer_heap s ! i) \<or> deadline (timer_heap s ! i) \<le> now s)
      then s\<lparr>timer_heap :=
               heap_map i (\<lambda>t. t\<lparr>phase := (if finished t then Ended else Running)\<rparr>)
                 (timer_heap s)\<rparr>
      else s)"

definition timer_call :: "(nat \<Rightarrow> upstream) \<Rightarrow> nat \<Rightarrow> plugin \<Rightarrow> plugin" where
  "timer_call world i s =
     (if i < length (timer_heap s) \<and> phase (timer_heap s ! i) = Running
      then (let key = timer_key (timer_heap s ! i);
                (r, s') = execute_batch_refresh world key
                            (s\<lparr>trace := trace s @ [TimerFired i key]\<rparr>)
            in s'\<lparr>timer_heap :=
                    heap_map i (\<lambda>t. t\<lparr>finished := (case r of Inl e \<Rightarrow> finished t | Inr u \<Rightarrow> True),
                                        phase := Ended\<rparr>)
                      (timer_heap s')\<rparr>)
      else s)"

text \<open>
  The operations of the threads, for the states any interleaving of them can produce: a
  whole call of \<open>schedule\<close>; the two halves of such a call, before the lock (\<open>Call\<close>) and
  under it (\<open>Enter\<close>, for the \<open>n\<close>-th of the calls that wait); a call of \<open>fire\<close> with any
  key; the two steps of a timer's thread; \<open>shutdown\<close>; and the clock reaching a time.
\<close>

datatype operation =
    Schedule string
  | Call string
  | Enter nat
  | Fire string
  | Wake nat
  | Run nat
  | Shutdown
  | Clock nat

fun apply_operation ::
  "(string \<Rightarrow> fs_node) \<Rightarrow> (fs_op \<Rightarrow> string option) \<Rightarrow> (nat \<Rightarrow> upstream) \<Rightarrow>
   operation \<Rightarrow> plugin \<Rightarrow> plugin" where
  "apply_operation fs fault world (Schedule p) s =
     (case schedule_batch_refresh fs fault p s of Inl e \<Rightarrow> s | Inr s' \<Rightarrow> s')"
| "apply_operation fs fault world (Call p) s =
     (case get_parent_path fs fault p of
        Inl e \<Rightarrow> s
      | Inr parent_path \<Rightarrow>
          s\<lparr>waiting_calls := waiting_calls s @ [(parent_path, p)],
            trace := trace s @ [ScheduleCalled p (now s)]\<rparr>)"
| "apply_operation fs fault world (Enter n) s =
     (if n < length (waiting_calls s)
      then (schedule_locked (fst (waiting_calls s ! n)) (snd (waiting_calls s ! n)) s)
             \<lparr>waiting_calls := take n (waiting_calls s) @ drop (Suc n) (waiting_calls s)\<rparr>
      else s)"
| "apply_operation fs fault world (Fire k) s = snd (execute_batch_refresh world k s)"
| "apply_operation fs fault world (Wake i) s = timer_wake i s"
| "apply_operation fs fault world (Run i) s = timer_call world i s"
| "apply_operation fs fault world Shutdown s = stop_service s"
| "apply_operation fs fault world (Clock t) s = s\<lparr>now := max (now s) t\<rparr>"

definition initial :: "int \<Rightarrow> plugin" where
  "initial d =
     \<lparr>enabled = False, path_maps = [], batch_delay = d, pending_refreshes = [],
      refresh_timers = [], timer_heap = [], waiting_calls = [], now = 0, http_calls = 0,
      trace = []\<rparr>"

section \<open>The event handler (\<open>refresh\<close>) and the path mapping\<close>

text \<open>
  \<open>map_path\<close>: the longest \<open>local\<close> prefix wins, the first one among equals; a mapping
  with a missing or empty side is skipped.
\<close>

definition map_step ::
  "string \<Rightarrow> string option \<times> string option \<Rightarrow> (string \<times> string) option \<times> int \<Rightarrow>
   (string \<times> string) option \<times> int" where
  "map_step local_path mapping acc =
     (case mapping of
        (Some local_prefix, Some plex_prefix) \<Rightarrow>
          if local_prefix \<noteq> [] \<and> plex_prefix \<noteq> [] \<and> prefix local_prefix local_path
             \<and> int (length local_prefix) > snd acc
          then (Some (local_prefix, plex_prefix), int (length local_prefix))
          else acc
      | _ \<Rightarrow> acc)"

definition map_path :: "(string option \<times> string option) list \<Rightarrow> string \<Rightarrow> string option" where
  "map_path maps local_path =
     (case fst (fold (map_step local_path) maps (None, - 1)) of
        None \<Rightarrow> None
      | Some (local_prefix, plex_prefix) \<Rightarrow>
          Some (replace_first local_prefix plex_prefix local_path))"

text \<open>The line marked "standardise the path format" of the handler.\<close>

definition normalize_plex_path :: "string \<Rightarrow> string" where
  "normalize_plex_path plex_path =
     (if CHR 0x5C \<in> set plex_path then replace_char CHR ''/'' (CHR 0x5C) plex_path
      else plex_path)"

record file_item =
  item_path :: "string option"

record transfer_info =
  target_diritem :: "file_item option"

text \<open>
  The handler. \<open>event_data\<close> is \<open>None\<close> or a dictionary; \<open>service_ok\<close> says whether the
  \<open>plex_service\<close> property returns a service. \<open>refresh_target\<close> is the path the handler
  passes to \<open>_schedule_batch_refresh\<close>, if it gets that far.
\<close>

definition refresh_target ::
  "plugin \<Rightarrow> bool \<Rightarrow> (string \<times> transfer_info) list option \<Rightarrow> string option" where
  "refresh_target s service_ok event_data =
     (if \<not> enabled s then None
      else (case event_data of
              None \<Rightarrow> None
            | Some event_info \<Rightarrow>
                if event_info = [] then None
                else if \<not> service_ok then None
                else (case map_of event_info ''transferinfo'' of
                        None \<Rightarrow> None
                      | Some transferinfo \<Rightarrow>
                          (case target_diritem transferinfo of
                             None \<Rightarrow> None
                           | Some diritem \<Rightarrow>
                               (case item_path diritem of
                                  None \<Rightarrow> None
                                | Some local_path \<Rightarrow>
                                    if local_path = [] then None
                                    else (case map_path (path_maps s) local_path of
                                            None \<Rightarrow> None
                                          | Some plex_path \<Rightarrow>
                                              if plex_path = [] then None
                                              else Some (normalize_plex_path plex_path)))))))"

definition refresh ::
  "(string \<Rightarrow> fs_node) \<Rightarrow> (fs_op \<Rightarrow> string option) \<Rightarrow> bool \<Rightarrow>
   (string \<times> transfer_info) list option \<Rightarrow> plugin \<Rightarrow> pyexc + plugin" where
  "refresh fs fault service_ok event_data s =
     (case refresh_target s service_ok event_data of
        None \<Rightarrow> Inr s
      | Some plex_path \<Rightarrow> schedule_batch_refresh fs fault plex_path s)"


section \<open>The hard-link plugin\<close>

text \<open>
  \<open>str(err)\<close>. The file-system calls raise \<open>OSError\<close>, or \<open>ValueError\<close> for a path with
  a null byte; the other exceptions do not occur there.
\<close>

fun exc_str :: "pyexc \<Rightarrow> string" where
  "exc_str (OSError msg) = msg"
| "exc_str ValueError = ''embedded null byte''"
| "exc_str TypeError = ''TypeError''"
| "exc_str OverflowError = ''OverflowError''"
| "exc_str AttributeError = ''AttributeError''"

text \<open>The UTF-8 bytes of the constant part of the error message.\<close>

definition link_failed_prefix :: string where
  "link_failed_prefix =
     map char_of
       [0xE8, 0x87, 0xAA, 0xE5, 0xAE, 0x9A, 0xE4, 0xB9, 0x89, 0xE7, 0xA1, 0xAC, 0xE9,
        0x93, 0xBE, 0xE6, 0x8E, 0xA5, 0xE5, 0xA4, 0xB1, 0xE8, 0xB4, 0xA5, 0x3A, 0x20 :: nat]"

text \<open>
  \<open>_custom_link_logic\<close>: the code and message it returns, the file system it leaves, and
  the calls it made on the file system, in order. \<open>dest.exists()\<close> is a \<open>stat\<close>, which
  follows symbolic links; \<open>dest.hardlink_to(src)\<close> is \<open>os.link(src, dest)\<close>.
\<close>

definition custom_link_logic ::
  "(string \<Rightarrow> fs_node) \<Rightarrow> (fs_op \<Rightarrow> string option) \<Rightarrow> pure_path \<Rightarrow> pure_path \<Rightarrow>
   (int \<times> string) \<times> (string \<Rightarrow> fs_node) \<times> fs_op list" where
  "custom_link_logic fs fault src dest =
     (let s = path_str src; d = path_str dest
      in case path_exists fs fault dest of
           Inl err \<Rightarrow> ((- 1, link_failed_prefix @ exc_str err), fs, [OpStat d])
         | Inr ex \<Rightarrow>
             (case (if ex then os_unlink fs fault d else Inr fs) of
                Inl err \<Rightarrow> ((- 1, link_failed_prefix @ exc_str err), fs, [OpStat d, OpUnlink d])
              | Inr fs1 \<Rightarrow>
                  (let ops = OpStat d # (if ex then [OpUnlink d] else []) @ [OpLink s d]
                   in case os_link fs1 fault s d of
                        Inl err \<Rightarrow> ((- 1, link_failed_prefix @ exc_str err), fs1, ops)
                      | Inr fs2 \<Rightarrow> ((0, []), fs2, ops))))"


section \<open>Notions used to state the properties\<close>

text \<open>The delay setting of a configuration, if it has one.\<close>

definition delay_setting :: "(string \<times> pyval) list option \<Rightarrow> pyval option" where
  "delay_setting config = (case config of None \<Rightarrow> None | Some kvs \<Rightarrow> map_of kvs ''batch_delay'')"

text \<open>
  A component of a path in normal form, the three roots of a POSIX path, and the absolute
  path with the given components.
\<close>

definition component :: "string \<Rightarrow> bool" where
  "component c \<longleftrightarrow> c \<noteq> [] \<and> c \<noteq> ''.'' \<and> CHR ''/'' \<notin> set c"

definition path_roots :: "string list" where
  "path_roots = [[], ''/'', ''//'']"

definition abs_path :: "string list \<Rightarrow> string" where
  "abs_path cs = concat (map (\<lambda>c. CHR ''/'' # c) cs)"

text \<open>
  A name under which \<open>stat\<close> finds a regular file, directly or through symbolic links.
\<close>

definition names_regular_file :: "(string \<Rightarrow> fs_node) \<Rightarrow> string \<Rightarrow> bool" where
  "names_regular_file fs p \<longleftrightarrow>
     CHR 0x00 \<notin> set p \<and> (case follow max_links fs p of RegularFile i \<Rightarrow> True | _ \<Rightarrow> False)"






text \<open>The events of a trace that belong to the fire of one key.\<close>

fun fire_event :: "string \<Rightarrow> effect \<Rightarrow> bool" where
  "fire_event P (TimerFired i k) = (k = P)"
| "fire_event P (BatchStart k ps) = (k = P)"
| "fire_event P (HttpRefresh p r) = False"
| "fire_event P (Sleep n) = False"
| "fire_event P (ScheduleCalled p t) = False"

text \<open>The paths of the refresh calls of a trace, in order.\<close>

fun refresh_calls :: "effect list \<Rightarrow> string list" where
  "refresh_calls [] = []"
| "refresh_calls (HttpRefresh p r # es) = p # refresh_calls es"
| "refresh_calls (e # es) = refresh_calls es"

text \<open>A trace in which a pause separates every two refresh calls that follow each other.\<close>

fun paced :: "effect list \<Rightarrow> bool" where
  "paced (HttpRefresh p r # HttpRefresh p' r' # es) = False"
| "paced (e # es) = paced es"
| "paced [] = True"

text \<open>What the fallback loop adds to the trace for its \<open>n\<close>-th path.\<close>

definition attempt :: "(nat \<Rightarrow> upstream) \<Rightarrow> nat \<Rightarrow> string \<Rightarrow> effect list" where
  "attempt world n path =
     (let r = refresh_plex_path_http (world n) path
      in HttpRefresh path r # (case r of Inl e \<Rightarrow> [] | Inr b \<Rightarrow> [Sleep 1]))"

fun attempts :: "(nat \<Rightarrow> upstream) \<Rightarrow> nat \<Rightarrow> string list \<Rightarrow> effect list" where
  "attempts world n [] = []"
| "attempts world n (p # ps) = attempt world n p @ attempts world (Suc n) ps"

text \<open>
  The states the scheduler keeps between its operations: no key twice in a dictionary, the
  same keys in both, no empty pending set.
\<close>

definition maps_agree :: "plugin \<Rightarrow> bool" where
  "maps_agree s \<longleftrightarrow>
     distinct (map fst (pending_refreshes s)) \<and>
     distinct (map fst (refresh_timers s)) \<and>
     set (map fst (pending_refreshes s)) = set (map fst (refresh_timers s)) \<and>
     list_all (\<lambda>(k, ps). ps \<noteq> []) (pending_refreshes s)"

section \<open>Example inputs\<close>

text \<open>
  A plugin whose mapping table sends \<open>/files1\<close> to a Windows path of the media server,
  and a transfer event for a file below \<open>/files1\<close>.
\<close>

definition ex_windows_plugin :: plugin where
  "ex_windows_plugin =
     (initial 60)\<lparr>enabled := True,
                  path_maps := [(Some ''/files1'', Some (''E:'' @ [CHR 0x5C] @ ''videos''))]\<rparr>"

definition ex_event :: "(string \<times> transfer_info) list" where
  "ex_event =
     [(''transferinfo'',
       \<lparr>target_diritem = Some \<lparr>item_path = Some ''/files1/show/e01.mkv''\<rparr>\<rparr>)]"

text \<open>
  A file system with two regular files in the root directory; the same with a symbolic
  link \<open>/c\<close> that points to nothing; and file-system calls that never fail for a reason
  outside the name space.
\<close>

definition ex_fs :: "string \<Rightarrow> fs_node" where
  "ex_fs = (\<lambda>p. Missing)(''/'' := Directory, ''/a'' := RegularFile 7, ''/b'' := RegularFile 8)"

definition ex_fs_dangling :: "string \<Rightarrow> fs_node" where
  "ex_fs_dangling = ex_fs(''/c'' := Symlink ''/nowhere'')"

definition no_fault :: "fs_op \<Rightarrow> string option" where
  "no_fault op = None"

text \<open>
  A media server with one library rooted at \<open>/lib\<close> that answers every request with
  the status 200; the same server answering the refresh request with the status 500; and
  a server whose sections document has a \<open>Location\<close> element without a \<open>path\<close>.
\<close>

definition ex_instance :: plex_instance where
  "ex_instance =
     \<lparr>host_private = Some ''plex:32400'', host_public = None,
      token_private = Some ''token'', token_public = None\<rparr>"

definition ex_upstream :: upstream where
  "ex_upstream =
     \<lparr>service = Some ex_instance,
      get_sections = (\<lambda>url token. Response 200
         (Some [\<lparr>dir_title = Some ''TV'', dir_key = Some ''2'', dir_type = Some ''show'',
                 dir_locations = [Some ''/lib'']\<rparr>])),
      get_refresh = (\<lambda>url path token. Response 200 ())\<rparr>"

definition ex_upstream_failing :: upstream where
  "ex_upstream_failing = ex_upstream\<lparr>get_refresh := (\<lambda>url path token. Response 500 ())\<rparr>"

definition ex_upstream_no_path :: upstream where
  "ex_upstream_no_path =
     ex_upstream\<lparr>get_sections := (\<lambda>url token. Response 200
         (Some [\<lparr>dir_title = Some ''TV'', dir_key = Some ''2'', dir_type = Some ''show'',
                 dir_locations = [None]\<rparr>]))\<rparr>"

text \<open>
  A host on which no path of the media server exists; a host whose file system refuses
  the \<open>stat\<close> of one path of 256 characters, the name being too long; a world in which
  every refresh call meets the server that answers 200, and one in which every call meets
  the server with the \<open>Location\<close> without a \<open>path\<close>.
\<close>

definition ex_host :: "string \<Rightarrow> fs_node" where
  "ex_host p = Missing"

definition ex_long_name :: string where
  "ex_long_name = ''/lib/'' @ replicate 256 CHR ''a''"

definition ex_name_limit :: "fs_op \<Rightarrow> string option" where
  "ex_name_limit op = (if op = OpStat ex_long_name then Some ''File name too long'' else None)"

definition ex_world_ok :: "nat \<Rightarrow> upstream" where
  "ex_world_ok n = ex_upstream"

definition ex_world_no_path :: "nat \<Rightarrow> upstream" where
  "ex_world_no_path n = ex_upstream_no_path"

text \<open>
  Two episodes of one season scheduled one after the other; and a world whose second
  refresh call meets the server with the \<open>Location\<close> without a \<open>path\<close>, all others the
  server that answers 500.
\<close>

definition ex_batch :: plugin where
  "ex_batch =
     schedule_locked ''/lib/showA'' ''/lib/showA/e02.mkv''
       (schedule_locked ''/lib/showA'' ''/lib/showA/e01.mkv'' (initial 60))"

definition ex_world_raising :: "nat \<Rightarrow> upstream" where
  "ex_world_raising n = (if n = 1 then ex_upstream_no_path else ex_upstream_failing)"

text \<open>
  Three calls of \<open>schedule\<close> for episodes of one season, made at the times 0, 58 and 59
  with a delay of 60 seconds. The first call goes through at once. The other two compute
  their key and reach the lock only at the time 60, when the first timer has made its
  test: the second call enters, the first timer's function runs, and the third call
  enters at the time 61. The timers of the second and of the third call end their waits
  at the times 120 and 121.
\<close>

definition ex_stale_run :: "operation list" where
  "ex_stale_run =
     [Call ''/lib/showA/e01.mkv'', Enter 0,
      Clock 58, Call ''/lib/showA/e02.mkv'',
      Clock 59, Call ''/lib/showA/e03.mkv'',
      Clock 60, Wake 0, Enter 0, Run 0,
      Clock 61, Enter 0,
      Clock 120, Wake 1, Run 1,
      Clock 121, Wake 2, Run 2]"

text \<open>
  Two calls at the times 0 and 59, the second entering the lock at the time 60 after the
  first timer's test, followed by the first timer's function and by \<open>shutdown\<close>.
\<close>

definition ex_stale_shutdown :: "operation list" where
  "ex_stale_shutdown =
     [Call ''/lib/showA/e01.mkv'', Enter 0,
      Clock 59, Call ''/lib/showA/e02.mkv'',
      Clock 60, Wake 0, Enter 0, Run 0, Shutdown]"

section \<open>Properties of the configuration and of the event handler\<close>

lemma replace_char_removes: "old \<noteq> new \<Longrightarrow> old \<notin> set (replace_char old new s)"
  by (induction s) (auto simp: replace_char_def)

lemma int_of_str_5: "int_of_str (ustr ''5'') = Some 5"
  by (simp add: int_of_str_def py_strip_def py_isspace_def int_spaces_def digit_val_def
      decimal_zeros_def max_str_digits_def ustr_def)

lemma int_of_str_abc: "int_of_str (ustr ''abc'') = None"
  by (simp add: int_of_str_def py_strip_def py_isspace_def int_spaces_def digit_val_def
      decimal_zeros_def max_str_digits_def ustr_def)

text \<open>
  Claim C4, as amended. When \<open>init_plugin\<close> is given a non-empty configuration: a delay
  setting that \<open>int()\<close> converts to \<open>n\<close> gives the delay 10 for \<open>n < 10\<close>, 300 for
  \<open>n > 300\<close> and \<open>n\<close> itself in between; a configuration without the setting, and a
  setting on which \<open>int()\<close> raises \<open>ValueError\<close> or \<open>TypeError\<close>, give 60. Without a
  configuration, or with the empty one, the delay keeps the value it had.
\<close>

theorem init_plugin_delay:
  assumes "kvs \<noteq> []"
  shows "(delay_setting (Some kvs) = None \<longrightarrow> init_plugin (Some kvs) d = Inr 60) \<and>
    (delay_setting (Some kvs) = Some v \<and> py_int v = Inr n \<and> n < 10 \<longrightarrow>
       init_plugin (Some kvs) d = Inr 10) \<and>
    (delay_setting (Some kvs) = Some v \<and> py_int v = Inr n \<and> 300 < n \<longrightarrow>
       init_plugin (Some kvs) d = Inr 300) \<and>
    (delay_setting (Some kvs) = Some v \<and> py_int v = Inr n \<and> 10 \<le> n \<and> n \<le> 300 \<longrightarrow>
       init_plugin (Some kvs) d = Inr n) \<and>
    (delay_setting (Some kvs) = Some v \<and> (py_int v = Inl ValueError \<or> py_int v = Inl TypeError) \<longrightarrow>
       init_plugin (Some kvs) d = Inr 60) \<and>
    init_plugin None d = Inr d \<and> init_plugin (Some []) d = Inr d"
  using assms by (auto simp: init_plugin_def delay_setting_def)

theorem init_plugin_delay_witness:
  "init_plugin (Some [(''enabled'', PBool True)]) 100 = Inr 60 \<and>
   init_plugin (Some [(''batch_delay'', PStr (ustr ''5''))]) 100 = Inr 10 \<and>
   init_plugin (Some [(''batch_delay'', PInt 1000)]) 100 = Inr 300 \<and>
   init_plugin (Some [(''batch_delay'', PFloat (Finite 241 (- 1)))]) 100 = Inr 120 \<and>
   init_plugin (Some [(''batch_delay'', PStr (ustr ''abc''))]) 100 = Inr 60 \<and>
   init_plugin (Some [(''batch_delay'', PNone)]) 100 = Inr 60"
proof -
  have "init_plugin (Some [(''enabled'', PBool True)]) 100 = Inr 60"
    using init_plugin_delay [where kvs = "[(''enabled'', PBool True)]" and d = 100]
    by (simp add: delay_setting_def)
  moreover have "init_plugin (Some [(''batch_delay'', PStr (ustr ''5''))]) 100 = Inr 10"
    using init_plugin_delay [where kvs = "[(''batch_delay'', PStr (ustr ''5''))]"
        and v = "PStr (ustr ''5'')" and n = 5 and d = 100]
    by (simp add: delay_setting_def int_of_str_5)
  moreover have "init_plugin (Some [(''batch_delay'', PInt 1000)]) 100 = Inr 300"
    using init_plugin_delay [where kvs = "[(''batch_delay'', PInt 1000)]"
        and v = "PInt 1000" and n = 1000 and d = 100]
    by (simp add: delay_setting_def)
  moreover have "init_plugin (Some [(''batch_delay'', PFloat (Finite 241 (- 1)))]) 100 = Inr 120"
    using init_plugin_delay [where kvs = "[(''batch_delay'', PFloat (Finite 241 (- 1)))]"
        and v = "PFloat (Finite 241 (- 1))" and n = 120 and d = 100]
    by (simp add: delay_setting_def float_trunc_def)
  moreover have "init_plugin (Some [(''batch_delay'', PStr (ustr ''abc''))]) 100 = Inr 60"
    using init_plugin_delay [where kvs = "[(''batch_delay'', PStr (ustr ''abc''))]"
        and v = "PStr (ustr ''abc'')" and d = 100]
    by (simp add: delay_setting_def int_of_str_abc)
  moreover have "init_plugin (Some [(''batch_delay'', PNone)]) 100 = Inr 60"
    using init_plugin_delay [where kvs = "[(''batch_delay'', PNone)]" and v = PNone and d = 100]
    by (simp add: delay_setting_def)
  ultimately show ?thesis by blast
qed

text \<open>
  Claim C4 as stated fails where the setting is missing because the whole configuration
  is: a plugin configured with the delay 100 and then initialised with the empty
  configuration (or with none) keeps 100.
\<close>

theorem init_plugin_missing_counterexample:
  "init_plugin (Some [(''batch_delay'', PInt 100)]) 60 = Inr 100 \<and>
   delay_setting (Some []) = None \<and> delay_setting None = None \<and>
   init_plugin (Some []) 100 = Inr 100 \<and> init_plugin None 100 = Inr 100 \<and>
   init_plugin (Some []) 100 \<noteq> Inr 60"
  by (simp add: init_plugin_def delay_setting_def)

text \<open>
  An infinite float as delay setting (the JSON number \<open>1e999\<close> decodes to it) is not
  converted and not replaced by 60: \<open>OverflowError\<close> is not among the exceptions the
  function catches, and leaves it.
\<close>

lemma init_plugin_infinite_delay:
  "init_plugin (Some [(''batch_delay'', PFloat PosInf)]) 60 = Inl OverflowError"
  by (simp add: init_plugin_def)

text \<open>Whenever \<open>init_plugin\<close> assigns the delay, the delay lies between 10 and 300.\<close>

lemma init_plugin_range:
  "kvs \<noteq> [] \<Longrightarrow> init_plugin (Some kvs) d = Inr r \<Longrightarrow> 10 \<le> r \<and> r \<le> 300"
  by (auto simp: init_plugin_def split: sum.splits if_splits)

text \<open>
  Claim C10. When the handler reaches \<open>_schedule_batch_refresh\<close>, the path it passes is
  the mapped path with every \<open>/\<close> replaced by a backslash if the mapped path holds a
  backslash, and the mapped path itself otherwise.
\<close>

theorem refresh_normalizes:
  assumes "enabled s" and "service_ok"
    and "map_of event_info ''transferinfo'' = Some ti"
    and "target_diritem ti = Some item" and "item_path item = Some local_path"
    and "local_path \<noteq> []"
    and "map_path (path_maps s) local_path = Some mapped" and "mapped \<noteq> []"
  shows "refresh fs fault service_ok (Some event_info) s =
           schedule_batch_refresh fs fault
             (if CHR 0x5C \<in> set mapped
              then map (\<lambda>c. if c = CHR ''/'' then CHR 0x5C else c) mapped
              else mapped) s
         \<and> (CHR 0x5C \<in> set mapped \<longrightarrow> CHR ''/'' \<notin> set (normalize_plex_path mapped))"
proof -
  from assms(3) have "event_info \<noteq> []" by auto
  with assms have "refresh fs fault service_ok (Some event_info) s =
           schedule_batch_refresh fs fault (normalize_plex_path mapped) s"
    by (simp add: refresh_def refresh_target_def)
  moreover have "normalize_plex_path mapped = (if CHR 0x5C \<in> set mapped
              then map (\<lambda>c. if c = CHR ''/'' then CHR 0x5C else c) mapped
              else mapped)"
    by (simp add: normalize_plex_path_def replace_char_def)
  moreover have "CHR 0x5C \<in> set mapped \<longrightarrow> CHR ''/'' \<notin> set (normalize_plex_path mapped)"
    using replace_char_removes[of "CHR ''/''" "CHR 0x5C" mapped]
    by (auto simp: normalize_plex_path_def)
  ultimately show ?thesis by simp
qed

lemma ex_map_path:
  "map_path (path_maps ex_windows_plugin) ''/files1/show/e01.mkv'' =
     Some (''E:'' @ [CHR 0x5C] @ ''videos/show/e01.mkv'')"
  by (simp add: ex_windows_plugin_def initial_def map_path_def map_step_def)

theorem refresh_normalizes_witness:
  "refresh ex_host no_fault True (Some ex_event) ex_windows_plugin =
     schedule_batch_refresh ex_host no_fault
       (''E:'' @ [CHR 0x5C] @ ''videos'' @ [CHR 0x5C] @ ''show'' @ [CHR 0x5C] @ ''e01.mkv'')
       ex_windows_plugin"
proof -
  have h1: "enabled ex_windows_plugin" by (simp add: ex_windows_plugin_def initial_def)
  have h3: "map_of ex_event ''transferinfo'' =
      Some \<lparr>target_diritem = Some \<lparr>item_path = Some ''/files1/show/e01.mkv''\<rparr>\<rparr>"
    by (simp add: ex_event_def)
  show ?thesis
    using refresh_normalizes [OF h1 TrueI h3 _ _ _ ex_map_path,
        where item = "\<lparr>item_path = Some ''/files1/show/e01.mkv''\<rparr>"
          and fs = ex_host and fault = no_fault]
    by simp
qed

section \<open>Properties of the hard-link plugin\<close>

lemma link_failed_prefix_nonempty: "link_failed_prefix \<noteq> []"
  by (simp add: link_failed_prefix_def)


lemma follow_no_link:
  "(\<And>t. fs p \<noteq> Symlink t) \<Longrightarrow> follow max_links fs p = fs p"
  by (cases "fs p") (auto simp: max_links_def numeral_eq_Suc)







lemma exc_str_prefix: "link_failed_prefix @ exc_str e \<noteq> []"
  by (simp add: link_failed_prefix_nonempty)





lemma ex_path_str: "path_str (Path ''/a'') = ''/a''" "path_str (Path ''/b'') = ''/b''"
  "path_str (Path ''/c'') = ''/c''"
  by (simp_all add: Path_def splitroot_def path_str_def)


text \<open>
  A symbolic link that points to nothing, at the destination: \<open>exists()\<close> is false, the
  link is not removed, and \<open>hardlink_to\<close> fails because the name is taken.
\<close>

lemma custom_link_dangling_destination:
  "custom_link_logic ex_fs_dangling no_fault (Path ''/a'') (Path ''/c'') =
     ((- 1, link_failed_prefix @ ''File exists''), ex_fs_dangling,
      [OpStat ''/c'', OpLink ''/a'' ''/c''])"
proof -
  have "follow max_links ex_fs_dangling ''/c'' = Missing"
    by (simp add: max_links_def numeral_eq_Suc ex_fs_dangling_def ex_fs_def)
  then show ?thesis
    by (simp add: custom_link_logic_def path_exists_def os_stat_def os_link_def no_fault_def
        ex_path_str ex_fs_dangling_def ex_fs_def Let_def)
qed

text \<open>A destination that is free, in a directory: the link is made without an unlink.\<close>

lemma custom_link_free_destination:
  "custom_link_logic ex_fs no_fault (Path ''/a'') (Path ''/c'') =
     ((0, []), ex_fs(''/c'' := RegularFile 7), [OpStat ''/c'', OpLink ''/a'' ''/c''])"
proof -
  have "follow max_links ex_fs ''/c'' = Missing" "follow max_links ex_fs ''/'' = Directory"
    by (simp_all add: follow_no_link ex_fs_def)
  then show ?thesis
    by (simp add: custom_link_logic_def path_exists_def os_stat_def os_link_def no_fault_def
        ex_path_str ex_fs_def Path_def splitroot_def path_str_def path_parent_def Let_def)
qed

section \<open>Properties of the scheduler\<close>

subsection \<open>What each operation changes\<close>

lemma call_refresh_frame:
  "call_refresh world p s = (r, s') \<Longrightarrow>
     pending_refreshes s' = pending_refreshes s \<and> refresh_timers s' = refresh_timers s \<and>
     timer_heap s' = timer_heap s \<and> now s' = now s \<and> batch_delay s' = batch_delay s \<and>
     enabled s' = enabled s \<and> path_maps s' = path_maps s \<and>
     http_calls s' = Suc (http_calls s) \<and>
     r = refresh_plex_path_http (world (http_calls s)) p \<and>
     trace s' = trace s @ [HttpRefresh p r]"
  by (auto simp: call_refresh_def Let_def)

lemma refresh_single_frame:
  "pending_refreshes (refresh_single world p s) = pending_refreshes s \<and>
   refresh_timers (refresh_single world p s) = refresh_timers s \<and>
   timer_heap (refresh_single world p s) = timer_heap s \<and>
   now (refresh_single world p s) = now s \<and>
   batch_delay (refresh_single world p s) = batch_delay s \<and>
   enabled (refresh_single world p s) = enabled s \<and>
   path_maps (refresh_single world p s) = path_maps s \<and>
   http_calls (refresh_single world p s) = Suc (http_calls s) \<and>
   trace (refresh_single world p s) = trace s @ attempt world (http_calls s) p"
  by (auto simp: refresh_single_def call_refresh_def attempt_def Let_def split: sum.splits)

lemma fold_refresh_single_frame:
  "pending_refreshes (fold (refresh_single world) ps s) = pending_refreshes s \<and>
   refresh_timers (fold (refresh_single world) ps s) = refresh_timers s \<and>
   timer_heap (fold (refresh_single world) ps s) = timer_heap s \<and>
   now (fold (refresh_single world) ps s) = now s \<and>
   batch_delay (fold (refresh_single world) ps s) = batch_delay s \<and>
   enabled (fold (refresh_single world) ps s) = enabled s \<and>
   path_maps (fold (refresh_single world) ps s) = path_maps s \<and>
   http_calls (fold (refresh_single world) ps s) = http_calls s + length ps \<and>
   trace (fold (refresh_single world) ps s) = trace s @ attempts world (http_calls s) ps"
  by (induction ps arbitrary: s) (simp_all add: refresh_single_frame)

text \<open>What one call of the function does to the state, by the three ways it can go.\<close>

lemma execute_absent:
  "map_of (pending_refreshes s) k = None \<Longrightarrow> execute_batch_refresh world k s = (Inr (), s)"
  by (simp add: execute_batch_refresh_def)

lemma execute_present:
  assumes "map_of (pending_refreshes s) k = Some ps"
  shows "pending_refreshes (snd (execute_batch_refresh world k s)) = AList.delete k (pending_refreshes s)"
    and "refresh_timers (snd (execute_batch_refresh world k s)) = AList.delete k (refresh_timers s)"
    and "timer_heap (snd (execute_batch_refresh world k s)) = timer_heap s"
    and "now (snd (execute_batch_refresh world k s)) = now s"
    and "batch_delay (snd (execute_batch_refresh world k s)) = batch_delay s"
  using assms
  by (auto simp: execute_batch_refresh_def Let_def call_refresh_def fold_refresh_single_frame
      split: sum.splits prod.splits if_splits)

lemma execute_trace:
  assumes "map_of (pending_refreshes s) k = Some ps" and "ps \<noteq> []"
  shows "trace (snd (execute_batch_refresh world k s)) =
     trace s @ BatchStart k ps # HttpRefresh k (refresh_plex_path_http (world (http_calls s)) k)
       # (if refresh_plex_path_http (world (http_calls s)) k = Inr False
          then attempts world (Suc (http_calls s)) ps else [])"
  using assms
  by (auto simp: execute_batch_refresh_def Let_def call_refresh_def fold_refresh_single_frame
      split: sum.splits prod.splits if_splits)


subsection \<open>The two dictionaries agree\<close>

lemma list_all_alist:
  assumes "distinct (map fst al)"
  shows "list_all P al \<longleftrightarrow> (\<forall>k v. map_of al k = Some v \<longrightarrow> P (k, v))"
proof -
  have "\<And>k v. (k, v) \<in> set al \<longleftrightarrow> map_of al k = Some v"
    using assms by simp
  then show ?thesis
    by (auto simp: list_all_iff)
qed

lemma maps_agree_iff:
  "maps_agree s \<longleftrightarrow>
     distinct (map fst (pending_refreshes s)) \<and> distinct (map fst (refresh_timers s)) \<and>
     dom (map_of (pending_refreshes s)) = dom (map_of (refresh_timers s)) \<and>
     (\<forall>k ps. map_of (pending_refreshes s) k = Some ps \<longrightarrow> ps \<noteq> [])"
proof (cases "distinct (map fst (pending_refreshes s))")
  case True
  have "list_all (\<lambda>(k, ps). ps \<noteq> []) (pending_refreshes s) \<longleftrightarrow>
        (\<forall>k ps. map_of (pending_refreshes s) k = Some ps \<longrightarrow> ps \<noteq> [])"
    by (simp add: list_all_alist [OF True])
  then show ?thesis
    by (simp add: maps_agree_def dom_map_of_conv_image_fst)
next
  case False
  then show ?thesis by (simp add: maps_agree_def)
qed

lemma set_add_nonempty: "set_add x xs \<noteq> []"
  by (auto simp: set_add_def)

lemma set_set_add: "set (set_add x xs) = insert x (set xs)"
  by (auto simp: set_add_def)

lemma distinct_set_add: "distinct xs \<Longrightarrow> distinct (set_add x xs)"
  by (simp add: set_add_def)

lemma schedule_locked_fields:
  "pending_refreshes (schedule_locked k p s) =
     AList.update k
       (set_add p (case map_of (pending_refreshes s) k of None \<Rightarrow> [] | Some ps \<Rightarrow> ps))
       (pending_refreshes s)"
  "refresh_timers (schedule_locked k p s) =
     AList.update k (length (timer_heap s)) (refresh_timers s)"
  "timer_heap (schedule_locked k p s) =
     (case map_of (refresh_timers s) k of
        None \<Rightarrow> timer_heap s
      | Some i \<Rightarrow> heap_map i timer_cancel (timer_heap s))
     @ [\<lparr>timer_key = k, deadline = now s + nat (batch_delay s),
         finished = False, phase = Waiting\<rparr>]"
  "now (schedule_locked k p s) = now s"
  "batch_delay (schedule_locked k p s) = batch_delay s"
  "trace (schedule_locked k p s) = trace s"
  "http_calls (schedule_locked k p s) = http_calls s"
  "waiting_calls (schedule_locked k p s) = waiting_calls s"
  by (auto simp: schedule_locked_def Let_def heap_map_def split: option.splits)

lemma maps_agree_schedule_locked:
  "maps_agree s \<Longrightarrow> maps_agree (schedule_locked k p s)"
  by (auto simp: maps_agree_iff schedule_locked_fields distinct_update update_conv'
      set_add_nonempty split: if_splits)

lemma maps_agree_schedule:
  "maps_agree s \<Longrightarrow> schedule_batch_refresh fs fault p s = Inr s' \<Longrightarrow> maps_agree s'"
  by (auto simp: schedule_batch_refresh_def maps_agree_schedule_locked split: sum.splits)

lemma maps_agree_execute:
  assumes "maps_agree s"
  shows "maps_agree (snd (execute_batch_refresh world k s))"
proof (cases "map_of (pending_refreshes s) k")
  case None
  with assms show ?thesis by (simp add: execute_absent)
next
  case (Some ps)
  from assms show ?thesis
    unfolding maps_agree_iff execute_present [OF Some]
    by (auto simp: distinct_delete delete_conv' split: if_splits)
qed

lemma maps_agree_stop: "maps_agree (stop_service s)"
  by (simp add: maps_agree_def stop_service_def)

lemma maps_agree_trace_upd: "maps_agree (s\<lparr>trace := t\<rparr>) = maps_agree s"
  by (simp add: maps_agree_def)

lemma maps_agree_heap_upd: "maps_agree (s\<lparr>timer_heap := h\<rparr>) = maps_agree s"
  by (simp add: maps_agree_def)

lemma maps_agree_timer_wake: "maps_agree s \<Longrightarrow> maps_agree (timer_wake i s)"
  by (simp add: timer_wake_def maps_agree_heap_upd)

lemma maps_agree_timer_call:
  assumes "maps_agree s"
  shows "maps_agree (timer_call world i s)"
proof (cases "i < length (timer_heap s) \<and> phase (timer_heap s ! i) = Running")
  case False
  with assms show ?thesis by (auto simp: timer_call_def)
next
  case True
  let ?s1 = "s\<lparr>trace := trace s @ [TimerFired i (timer_key (timer_heap s ! i))]\<rparr>"
  have "maps_agree (snd (execute_batch_refresh world (timer_key (timer_heap s ! i)) ?s1))"
    using assms by (intro maps_agree_execute) (simp add: maps_agree_trace_upd)
  with True show ?thesis
    by (auto simp: timer_call_def Let_def maps_agree_heap_upd split: prod.splits)
qed

lemma maps_agree_enter:
  "maps_agree s \<Longrightarrow> maps_agree (apply_operation fs fault world (Enter n) s)"
proof -
  assume a: "maps_agree s"
  have "\<And>s w. maps_agree (s\<lparr>waiting_calls := w\<rparr>) = maps_agree s"
    by (simp add: maps_agree_def)
  with a show ?thesis
    by (simp add: maps_agree_schedule_locked)
qed

lemma maps_agree_call:
  "maps_agree s \<Longrightarrow> maps_agree (apply_operation fs fault world (Call p) s)"
  by (simp add: maps_agree_def split: sum.splits)

lemma maps_agree_clock:
  "maps_agree s \<Longrightarrow> maps_agree (apply_operation fs fault world (Clock t) s)"
  by (simp add: maps_agree_def)

lemma maps_agree_step:
  assumes "maps_agree s"
  shows "maps_agree (apply_operation fs fault world op s)"
proof (cases op)
  case (Schedule p)
  with assms maps_agree_schedule [OF assms, of fs fault p] show ?thesis
    by (cases "schedule_batch_refresh fs fault p s") simp_all
next
  case (Call p)
  with maps_agree_call [OF assms] show ?thesis by simp
next
  case (Enter n)
  with maps_agree_enter [OF assms] show ?thesis by simp
next
  case (Fire k)
  with maps_agree_execute [OF assms] show ?thesis by simp
next
  case (Wake i)
  with maps_agree_timer_wake [OF assms] show ?thesis by simp
next
  case (Run i)
  with maps_agree_timer_call [OF assms] show ?thesis by simp
next
  case Shutdown
  with maps_agree_stop show ?thesis by simp
next
  case (Clock t)
  with maps_agree_clock [OF assms] show ?thesis by simp
qed

lemma maps_agree_fold:
  "maps_agree s \<Longrightarrow> maps_agree (fold (apply_operation fs fault world) ops s)"
  by (induction ops arbitrary: s) (simp_all add: maps_agree_step)

lemma maps_agree_initial: "maps_agree (initial d)"
  by (simp add: maps_agree_def initial_def)

text \<open>
  Claim C2. Each operation on the two dictionaries is one step; the lock makes its
  critical section atomic, and the step holds every change the operation makes to either
  dictionary. In every state that any sequence of \<open>schedule\<close>, \<open>fire\<close> (called with any
  key, or by a timer) and \<open>shutdown\<close> reaches from the empty dictionaries, the two
  dictionaries have the same keys, each once, and no pending set is empty. The steps
  outside the lock (the computation of the key, the test of a timer, the clock) may stand
  anywhere between the critical sections.
\<close>

theorem maps_agree_reachable:
  "maps_agree (fold (apply_operation fs fault world) ops (initial d))"
  by (rule maps_agree_fold [OF maps_agree_initial])

subsection \<open>Shutdown and the fire of an absent key\<close>

lemma length_heap_map [simp]: "length (heap_map i f h) = length h"
  by (simp add: heap_map_def)

lemma nth_heap_map:
  "j < length h \<Longrightarrow> heap_map i f h ! j = (if j = i then f (h ! i) else h ! j)"
  by (simp add: heap_map_def)

lemma fold_heap_map_length [simp]:
  "length (fold (\<lambda>i h. heap_map i g h) is h) = length h"
  by (induction "is" arbitrary: h) simp_all

lemma fold_heap_map_nth:
  assumes "\<And>t. g (g t) = g t"
  shows "j < length h \<Longrightarrow>
     fold (\<lambda>i h. heap_map i g h) is h ! j = (if j \<in> set is then g (h ! j) else h ! j)"
  by (induction "is" arbitrary: h) (auto simp: nth_heap_map assms)

lemma stop_service_twice: "stop_service (stop_service s) = stop_service s"
  by (simp add: stop_service_def)

text \<open>
  What \<open>stop_service\<close> does, in every state: both dictionaries are empty afterwards, the
  timers that the dictionary of timers referred to are cancelled if their threads had not
  ended, and every other timer is left as it was.
\<close>

lemma stop_service_maps:
  "pending_refreshes (stop_service s) = []" "refresh_timers (stop_service s) = []"
  by (simp_all add: stop_service_def)

lemma stop_service_timers:
  "length (timer_heap (stop_service s)) = length (timer_heap s)"
  "i < length (timer_heap s) \<Longrightarrow>
     timer_heap (stop_service s) ! i =
       (if i \<in> snd ` set (refresh_timers s) \<and> is_alive (timer_heap s ! i)
        then timer_cancel (timer_heap s ! i) else timer_heap s ! i)"
proof -
  show "length (timer_heap (stop_service s)) = length (timer_heap s)"
    by (simp add: stop_service_def)
next
  assume i: "i < length (timer_heap s)"
  let ?g = "\<lambda>t. if is_alive t then timer_cancel t else t"
  have idem: "\<And>t. ?g (?g t) = ?g t" by (simp add: is_alive_def timer_cancel_def)
  from fold_heap_map_nth [of ?g i "timer_heap s" "map snd (refresh_timers s)", OF idem i]
  show "timer_heap (stop_service s) ! i =
       (if i \<in> snd ` set (refresh_timers s) \<and> is_alive (timer_heap s ! i)
        then timer_cancel (timer_heap s ! i) else timer_heap s ! i)"
    by (simp add: stop_service_def)
qed


text \<open>
  Claim C6. \<open>_execute_batch_refresh\<close> called with a key that has no pending set returns
  without an exception and leaves the whole state as it was; this is the case after a
  fire of the same key and after a shutdown. A second shutdown changes nothing.
\<close>

theorem fire_absent_is_noop:
  "(map_of (pending_refreshes s) K = None \<longrightarrow> execute_batch_refresh world K s = (Inr (), s)) \<and>
   execute_batch_refresh world K (snd (execute_batch_refresh world' K s)) =
     (Inr (), snd (execute_batch_refresh world' K s)) \<and>
   execute_batch_refresh world K (stop_service s) = (Inr (), stop_service s) \<and>
   stop_service (stop_service s) = stop_service s"
proof -
  have "map_of (pending_refreshes (snd (execute_batch_refresh world' K s))) K = None"
  proof (cases "map_of (pending_refreshes s) K")
    case None
    then show ?thesis by (simp add: execute_absent)
  next
    case (Some ps)
    show ?thesis by (simp add: execute_present(1) [OF Some] delete_conv')
  qed
  moreover have "map_of (pending_refreshes (stop_service s)) K = None"
    by (simp add: stop_service_def)
  ultimately show ?thesis
    by (simp add: execute_absent stop_service_twice)
qed

theorem fire_absent_is_noop_witness:
  "execute_batch_refresh ex_world_ok ''/lib/showA'' (initial 60) = (Inr (), initial 60)"
  using fire_absent_is_noop [of "initial 60" "''/lib/showA''" ex_world_ok]
  by (simp add: initial_def)

subsection \<open>The refresh calls of a fire\<close>

lemma ex_connection:
  "get_plex_connection_info (Some ex_instance) = Some (''http://plex:32400'', ''token'')"
  by (simp add: get_plex_connection_info_def ex_instance_def py_or_def rstrip_slash_def)

lemma ex_refresh_no_path:
  "refresh_plex_path_http ex_upstream_no_path p = Inl AttributeError"
  by (simp add: refresh_plex_path_http_def ex_upstream_no_path_def ex_upstream_def ex_connection
      get_library_info_def raises_for_status_def find_matching_library_def)

lemma ex_refresh_failing:
  "refresh_plex_path_http ex_upstream_failing p = Inr False"
  by (simp add: refresh_plex_path_http_def ex_upstream_failing_def ex_upstream_def ex_connection
      get_library_info_def raises_for_status_def find_matching_library_def Let_def)

lemma ex_refresh_ok:
  "refresh_plex_path_http ex_upstream ''/lib/showA'' = Inr True"
  by (simp add: refresh_plex_path_http_def ex_upstream_def ex_connection
      get_library_info_def raises_for_status_def find_matching_library_def Let_def
      replace_char_def py_str_def)

lemma refresh_calls_append:
  "refresh_calls (xs @ ys) = refresh_calls xs @ refresh_calls ys"
  by (induction xs rule: refresh_calls.induct) simp_all

lemma refresh_calls_attempts: "refresh_calls (attempts world n ps) = ps"
  by (induction ps arbitrary: n)
    (auto simp: refresh_calls_append attempt_def Let_def split: sum.splits)

lemma paced_attempts:
  "(\<And>i. i < length ps \<Longrightarrow> \<exists>b. refresh_plex_path_http (world (n + i)) (ps ! i) = Inr b) \<Longrightarrow>
     paced (attempts world n ps)"
proof (induction ps arbitrary: n)
  case Nil
  show ?case by simp
next
  case (Cons p ps)
  from Cons.prems [of 0] obtain b where b: "refresh_plex_path_http (world n) p = Inr b"
    by auto
  have "paced (attempts world (Suc n) ps)"
  proof (rule Cons.IH)
    fix i assume "i < length ps"
    with Cons.prems [of "Suc i"]
    show "\<exists>b. refresh_plex_path_http (world (Suc n + i)) (ps ! i) = Inr b" by simp
  qed
  with b show ?case by (simp add: attempt_def)
qed

text \<open>
  Claim C3, as amended. When the batched call for the key returns failure, the function
  calls \<open>_refresh_plex_path_http\<close> once for each path of the captured set, one after the
  other, whatever the earlier calls returned or raised, and itself returns without an
  exception. A call that returns is followed by a pause of one second; when no call
  raises, a pause separates every two calls.
\<close>

theorem fallback_attempts_each_path_once:
  assumes "map_of (pending_refreshes s) P = Some S" and "S \<noteq> []"
    and "refresh_plex_path_http (world (http_calls s)) P = Inr False"
  shows "fst (execute_batch_refresh world P s) = Inr () \<and>
         trace (snd (execute_batch_refresh world P s)) =
           trace s @ BatchStart P S # HttpRefresh P (Inr False)
             # attempts world (Suc (http_calls s)) S \<and>
         refresh_calls (attempts world (Suc (http_calls s)) S) = S \<and>
         ((\<forall>i < length S. \<exists>b. refresh_plex_path_http (world (Suc (http_calls s) + i)) (S ! i) = Inr b)
            \<longrightarrow> paced (attempts world (Suc (http_calls s)) S))"
proof -
  have "fst (execute_batch_refresh world P s) = Inr ()"
    using assms by (simp add: execute_batch_refresh_def call_refresh_def Let_def)
  moreover have "trace (snd (execute_batch_refresh world P s)) =
           trace s @ BatchStart P S # HttpRefresh P (Inr False)
             # attempts world (Suc (http_calls s)) S"
    using execute_trace [OF assms(1,2), of world] assms(3) by simp
  ultimately show ?thesis
    using paced_attempts [of S world "Suc (http_calls s)"]
    by (simp add: refresh_calls_attempts)
qed


lemma ex_key1: "get_parent_path ex_host no_fault ''/lib/showA/e01.mkv'' = Inr ''/lib/showA''"
  by (simp add: get_parent_path_def Path_def splitroot_def path_str_def path_parent_def
      path_name_def is_file_def os_stat_def has_media_ext_def media_exts_def suffix_to_prefix
      ex_host_def no_fault_def follow_no_link)

lemma ex_key2: "get_parent_path ex_host no_fault ''/lib/showA/e02.mkv'' = Inr ''/lib/showA''"
  by (simp add: get_parent_path_def Path_def splitroot_def path_str_def path_parent_def
      path_name_def is_file_def os_stat_def has_media_ext_def media_exts_def suffix_to_prefix
      ex_host_def no_fault_def follow_no_link)

lemma ex_key3: "get_parent_path ex_host no_fault ''/lib/showA/e03.mkv'' = Inr ''/lib/showA''"
  by (simp add: get_parent_path_def Path_def splitroot_def path_str_def path_parent_def
      path_name_def is_file_def os_stat_def has_media_ext_def media_exts_def suffix_to_prefix
      ex_host_def no_fault_def follow_no_link)

text \<open>The example batch is what two calls of \<open>schedule\<close> leave.\<close>

lemma ex_batch_scheduled:
  "fold (apply_operation ex_host no_fault world)
     [Schedule ''/lib/showA/e01.mkv'', Schedule ''/lib/showA/e02.mkv''] (initial 60) = ex_batch"
  by (simp add: schedule_batch_refresh_def ex_key1 ex_key2 ex_batch_def)

lemma ex_batch_fields:
  "map_of (pending_refreshes ex_batch) ''/lib/showA'' =
     Some [''/lib/showA/e01.mkv'', ''/lib/showA/e02.mkv'']"
  "http_calls ex_batch = 0" "trace ex_batch = []"
  by (simp_all add: ex_batch_def schedule_locked_fields initial_def set_add_def)

theorem fallback_attempts_each_path_once_witness:
  "fst (execute_batch_refresh (\<lambda>n. ex_upstream_failing) ''/lib/showA'' ex_batch) = Inr () \<and>
   trace (snd (execute_batch_refresh (\<lambda>n. ex_upstream_failing) ''/lib/showA'' ex_batch)) =
     [BatchStart ''/lib/showA'' [''/lib/showA/e01.mkv'', ''/lib/showA/e02.mkv''],
      HttpRefresh ''/lib/showA'' (Inr False),
      HttpRefresh ''/lib/showA/e01.mkv'' (Inr False), Sleep 1,
      HttpRefresh ''/lib/showA/e02.mkv'' (Inr False), Sleep 1]"
  using fallback_attempts_each_path_once [OF ex_batch_fields(1), of "\<lambda>n. ex_upstream_failing"]
  by (simp add: ex_refresh_failing ex_batch_fields attempt_def)

text \<open>
  Claim C3 as stated asks for a pause between the calls. A call that raises is followed
  by the next call at once: the pause stands in the same \<open>try\<close> block, after the call.
\<close>

theorem fallback_pacing_counterexample:
  "refresh_plex_path_http (ex_world_raising 0) ''/lib/showA'' = Inr False \<and>
   trace (snd (execute_batch_refresh ex_world_raising ''/lib/showA'' ex_batch)) =
     [BatchStart ''/lib/showA'' [''/lib/showA/e01.mkv'', ''/lib/showA/e02.mkv''],
      HttpRefresh ''/lib/showA'' (Inr False),
      HttpRefresh ''/lib/showA/e01.mkv'' (Inl AttributeError),
      HttpRefresh ''/lib/showA/e02.mkv'' (Inr False), Sleep 1] \<and>
   \<not> paced [HttpRefresh ''/lib/showA/e01.mkv'' (Inl AttributeError),
            HttpRefresh ''/lib/showA/e02.mkv'' (Inr False), Sleep 1]"
proof -
  have 0: "refresh_plex_path_http (ex_world_raising 0) ''/lib/showA'' = Inr False"
    by (simp add: ex_world_raising_def ex_refresh_failing)
  have 1: "\<And>p. refresh_plex_path_http (ex_world_raising (Suc 0)) p = Inl AttributeError"
    by (simp add: ex_world_raising_def ex_refresh_no_path)
  have 2: "\<And>p. refresh_plex_path_http (ex_world_raising (Suc (Suc 0))) p = Inr False"
    by (simp add: ex_world_raising_def ex_refresh_failing)
  from execute_trace [OF ex_batch_fields(1), of ex_world_raising] 0 1 2 show ?thesis
    by (simp add: ex_batch_fields attempt_def)
qed

text \<open>
  Claim C8 fails on the code. With a sections document that holds a \<open>Location\<close> element
  without a \<open>path\<close> attribute, \<open>_find_matching_library\<close> raises \<open>AttributeError\<close>; the
  exception leaves \<open>_refresh_plex_path_http\<close>, whose call of that function stands before
  its \<open>try\<close> block, and then \<open>_execute_batch_refresh\<close>, whose batched call is not
  guarded either.
\<close>

theorem refresh_raises_attribute_error:
  "refresh_plex_path_http ex_upstream_no_path ''/lib/showA'' = Inl AttributeError \<and>
   fst (execute_batch_refresh ex_world_no_path ''/lib/showA'' ex_batch)
     = Inl AttributeError"
  by (simp add: ex_refresh_no_path execute_batch_refresh_def call_refresh_def ex_batch_fields
      ex_world_no_path_def Let_def)

subsection \<open>Where the refresh call can raise\<close>

lemma scan_locations_returns:
  "None \<notin> set ls \<Longrightarrow> \<exists>acc'. scan_locations target lib ls acc = Inr acc'"
proof (induction ls arbitrary: acc)
  case Nil
  show ?case by simp
next
  case (Cons l ls)
  then obtain x where l: "l = Some x" by (cases l) auto
  obtain b m where acc: "acc = (b, m)" by (cases acc)
  from Cons.prems have "None \<notin> set ls" by simp
  from Cons.IH [OF this] show ?case
    by (simp add: l acc Let_def)
qed

lemma scan_libraries_returns:
  "list_all (\<lambda>(n, d). None \<notin> set (l_locations d)) libs \<Longrightarrow>
     \<exists>acc'. scan_libraries target libs acc = Inr acc'"
proof (induction libs arbitrary: acc)
  case Nil
  show ?case by simp
next
  case (Cons e libs)
  obtain n d where e: "e = (n, d)" by (cases e)
  from Cons.prems e have 1: "None \<notin> set (l_locations d)"
    and 2: "list_all (\<lambda>(n, d). None \<notin> set (l_locations d)) libs" by simp_all
  from scan_locations_returns [OF 1, of target "(n, l_id d)" acc]
  obtain acc1 where "scan_locations target (n, l_id d) (l_locations d) acc = Inr acc1" by blast
  with Cons.IH [OF 2, of acc1] show ?case by (simp add: e)
qed

lemma list_all_update:
  "list_all P al \<Longrightarrow> P (k, v) \<Longrightarrow> list_all P (AList.update k v al)"
  by (induction al) auto

lemma library_info_locations:
  "list_all (\<lambda>d. None \<notin> set (dir_locations d)) dirs \<Longrightarrow>
   list_all (\<lambda>(n, d). None \<notin> set (l_locations d)) acc \<Longrightarrow>
     list_all (\<lambda>(n, d). None \<notin> set (l_locations d))
       (fold (\<lambda>d library_info.
                AList.update (dir_title d)
                  \<lparr>l_id = dir_key d, l_type = dir_type d, l_locations = dir_locations d\<rparr>
                  library_info) dirs acc)"
  by (induction dirs arbitrary: acc) (simp_all add: list_all_update)

text \<open>
  When every \<open>Location\<close> of the sections document has its \<open>path\<close>, the refresh call
  returns a truth value and a fire returns without an exception: the missing \<open>path\<close> is
  the only way by which an exception leaves them.
\<close>

lemma refresh_returns_when_paths_present:
  assumes "\<And>url token st dirs. get_sections u url token = Response st (Some dirs) \<Longrightarrow>
             list_all (\<lambda>d. None \<notin> set (dir_locations d)) dirs"
  shows "\<exists>b. refresh_plex_path_http u p = Inr b"
proof (cases "get_plex_connection_info (service u)")
  case None
  then have "refresh_plex_path_http u p = Inr False"
    by (simp add: refresh_plex_path_http_def)
  then show ?thesis by blast
next
  case (Some c)
  obtain plex_url plex_token where c: "c = (plex_url, plex_token)" by (cases c)
  have "list_all (\<lambda>(n, d). None \<notin> set (l_locations d)) (get_library_info u plex_url plex_token)"
    using assms [of "plex_url @ ''/library/sections''" plex_token]
    by (auto simp: get_library_info_def intro: library_info_locations
        split: response.splits option.splits)
  from scan_libraries_returns [OF this, of "replace_char (CHR 0x5C) CHR ''/'' p" "(None, 0)"]
  obtain acc' where "scan_libraries (replace_char (CHR 0x5C) CHR ''/'' p)
      (get_library_info u plex_url plex_token) (None, 0) = Inr acc'" by blast
  then have "find_matching_library p (get_library_info u plex_url plex_token) = Inr (fst acc')"
    by (cases acc') (simp add: find_matching_library_def)
  then obtain r where "find_matching_library p (get_library_info u plex_url plex_token) = Inr r"
    by blast
  with Some c show ?thesis
    by (auto simp: refresh_plex_path_http_def Let_def
        split: option.splits response.splits prod.splits)
qed

lemma execute_returns_when_paths_present:
  assumes "\<And>n url token st dirs. get_sections (world n) url token = Response st (Some dirs) \<Longrightarrow>
             list_all (\<lambda>d. None \<notin> set (dir_locations d)) dirs"
  shows "fst (execute_batch_refresh world k s) = Inr ()"
proof -
  from refresh_returns_when_paths_present [of "world (http_calls s)" k] assms
  obtain b where "refresh_plex_path_http (world (http_calls s)) k = Inr b" by blast
  then show ?thesis
    by (simp add: execute_batch_refresh_def call_refresh_def Let_def split: option.splits)
qed

subsection \<open>The timer's test and the lock\<close>

lemma ex_refresh_ok_world:
  "refresh_plex_path_http (ex_world_ok n) ''/lib/showA'' = Inr True"
  by (simp add: ex_world_ok_def ex_refresh_ok)

lemma ex_first_call:
  "fold (apply_operation ex_host no_fault ex_world_ok)
     [Call ''/lib/showA/e01.mkv'', Enter 0] (initial 60) =
   (initial 60)
     \<lparr>pending_refreshes := [(''/lib/showA'', [''/lib/showA/e01.mkv''])],
      refresh_timers := [(''/lib/showA'', 0)],
      timer_heap := [\<lparr>timer_key = ''/lib/showA'', deadline = 60, finished = False,
                       phase = Waiting\<rparr>],
      trace := [ScheduleCalled ''/lib/showA/e01.mkv'' 0]\<rparr>"
  by (simp add: ex_key1 initial_def schedule_locked_def set_add_def)

text \<open>
  Claim C7 fails on the code. The second call of \<open>schedule\<close> enters the lock after the
  first timer has made its test: its \<open>cancel()\<close> comes too late, and the first timer's
  function then takes the pending set and deletes the entry of the second timer, which
  the dictionary no longer refers to. \<open>stop_service\<close>, which cancels the timers of the
  dictionary, leaves that timer as it is: still waiting, its event not set. At its
  deadline it calls \<open>_execute_batch_refresh\<close>, after the shutdown.
\<close>

theorem stop_service_leaves_live_timer:
  "refresh_timers (fold (apply_operation ex_host no_fault ex_world_ok) ex_stale_shutdown
     (initial 60)) = [] \<and>
   pending_refreshes (fold (apply_operation ex_host no_fault ex_world_ok) ex_stale_shutdown
     (initial 60)) = [] \<and>
   timer_heap (fold (apply_operation ex_host no_fault ex_world_ok) ex_stale_shutdown
     (initial 60)) =
     [\<lparr>timer_key = ''/lib/showA'', deadline = 60, finished = True, phase = Ended\<rparr>,
      \<lparr>timer_key = ''/lib/showA'', deadline = 120, finished = False, phase = Waiting\<rparr>] \<and>
   is_alive (timer_heap (fold (apply_operation ex_host no_fault ex_world_ok) ex_stale_shutdown
     (initial 60)) ! 1) \<and>
   trace (fold (apply_operation ex_host no_fault ex_world_ok)
            (ex_stale_shutdown @ [Clock 120, Wake 1, Run 1]) (initial 60)) =
     [ScheduleCalled ''/lib/showA/e01.mkv'' 0, ScheduleCalled ''/lib/showA/e02.mkv'' 59,
      TimerFired 0 ''/lib/showA'',
      BatchStart ''/lib/showA'' [''/lib/showA/e01.mkv'', ''/lib/showA/e02.mkv''],
      HttpRefresh ''/lib/showA'' (Inr True),
      TimerFired 1 ''/lib/showA'']"
  by (simp add: ex_stale_shutdown_def ex_key1 ex_key2 initial_def schedule_locked_def
      set_add_def heap_map_def timer_cancel_def timer_wake_def timer_call_def is_alive_def
      execute_batch_refresh_def call_refresh_def ex_refresh_ok_world stop_service_def Let_def)

text \<open>
  Claim C1 fails on the code. Three calls of \<open>schedule\<close> for paths of one key are made
  within one delay window, at the times 0, 58 and 59 with a delay of 60. The second and
  the third compute their key and reach the lock after the first timer has made its test
  at the time 60. The first timer fires with the paths of the first two calls and deletes
  the entry of the second timer; the third call, at the time 61, finds no timer to cancel;
  the second timer fires at 120 with the third path, before the deadline 121 of the timer
  of the last call, which fires on nothing. The key is fired three times, in two batches,
  neither of which holds the three paths.
\<close>

theorem stale_timer_splits_batch:
  "get_parent_path ex_host no_fault ''/lib/showA/e01.mkv'' = Inr ''/lib/showA'' \<and>
   get_parent_path ex_host no_fault ''/lib/showA/e02.mkv'' = Inr ''/lib/showA'' \<and>
   get_parent_path ex_host no_fault ''/lib/showA/e03.mkv'' = Inr ''/lib/showA'' \<and>
   trace (fold (apply_operation ex_host no_fault ex_world_ok) ex_stale_run (initial 60)) =
     [ScheduleCalled ''/lib/showA/e01.mkv'' 0, ScheduleCalled ''/lib/showA/e02.mkv'' 58,
      ScheduleCalled ''/lib/showA/e03.mkv'' 59,
      TimerFired 0 ''/lib/showA'',
      BatchStart ''/lib/showA'' [''/lib/showA/e01.mkv'', ''/lib/showA/e02.mkv''],
      HttpRefresh ''/lib/showA'' (Inr True),
      TimerFired 1 ''/lib/showA'',
      BatchStart ''/lib/showA'' [''/lib/showA/e03.mkv''],
      HttpRefresh ''/lib/showA'' (Inr True),
      TimerFired 2 ''/lib/showA''] \<and>
   map deadline (timer_heap (fold (apply_operation ex_host no_fault ex_world_ok) ex_stale_run
     (initial 60))) = [60, 120, 121]"
  by (simp add: ex_stale_run_def ex_key1 ex_key2 ex_key3 initial_def schedule_locked_def
      set_add_def heap_map_def timer_cancel_def timer_wake_def timer_call_def
      execute_batch_refresh_def call_refresh_def ex_refresh_ok_world Let_def)

section \<open>Properties of the batching key\<close>


lemma split_on_no_sep: "c \<notin> set s \<Longrightarrow> split_on c s = [s]"
  by (induction s) auto

lemma split_on_append: "c \<notin> set s \<Longrightarrow> split_on c (s @ c # rest) = s # split_on c rest"
  by (induction s) auto

lemma split_on_join:
  "cs \<noteq> [] \<Longrightarrow> \<forall>c \<in> set cs. CHR ''/'' \<notin> set c \<Longrightarrow> split_on CHR ''/'' (join_slash cs) = cs"
  by (induction cs rule: join_slash.induct) (simp_all add: split_on_no_sep split_on_append)

lemma split_on_free: "x \<in> set (split_on c s) \<Longrightarrow> c \<notin> set x"
proof (induction s arbitrary: x)
  case Nil
  then show ?case by simp
next
  case (Cons a s)
  show ?case
  proof (cases "a = c")
    case True
    with Cons show ?thesis by auto
  next
    case False
    with Cons show ?thesis
      by (cases "split_on c s") auto
  qed
qed

lemma abs_path_join: "cs \<noteq> [] \<Longrightarrow> abs_path cs = CHR ''/'' # join_slash cs"
  by (induction cs rule: join_slash.induct) (simp_all add: abs_path_def)

lemma join_slash_nonempty: "cs \<noteq> [] \<Longrightarrow> hd cs \<noteq> [] \<Longrightarrow> join_slash cs \<noteq> []"
  by (induction cs rule: join_slash.induct) simp_all

lemma join_slash_hd:
  "cs \<noteq> [] \<Longrightarrow> hd cs \<noteq> [] \<Longrightarrow> hd (join_slash cs) = hd (hd cs)"
  by (induction cs rule: join_slash.induct) simp_all

lemma splitroot_normal:
  assumes "r \<in> set path_roots" and "list_all component cs"
  shows "splitroot (r @ join_slash cs) = (r, join_slash cs)"
proof (cases "cs = []")
  case True
  with assms(1) show ?thesis by (auto simp: path_roots_def splitroot_def)
next
  case False
  from assms(2) have c: "\<forall>c \<in> set cs. c \<noteq> [] \<and> c \<noteq> ''.'' \<and> CHR ''/'' \<notin> set c"
    by (simp add: list_all_iff component_def)
  with False have h: "hd cs \<noteq> []" "CHR ''/'' \<notin> set (hd cs)" by simp_all
  then have "hd (hd cs) \<noteq> CHR ''/''"
    by (metis hd_in_set)
  with False h have j: "join_slash cs \<noteq> []" "hd (join_slash cs) \<noteq> CHR ''/''"
    by (simp_all add: join_slash_nonempty join_slash_hd)
  then obtain x xs where x: "join_slash cs = x # xs" "x \<noteq> CHR ''/''"
    by (cases "join_slash cs") auto
  with assms(1) show ?thesis
    by (auto simp: path_roots_def splitroot_def)
qed

lemma Path_normal:
  assumes "r \<in> set path_roots" and "list_all component cs"
  shows "Path (r @ join_slash cs) = \<lparr>root = r, parts = cs\<rparr>"
proof (cases "cs = []")
  case True
  with splitroot_normal [OF assms] show ?thesis by (simp add: Path_def)
next
  case False
  from assms(2) have c: "\<forall>c \<in> set cs. c \<noteq> [] \<and> c \<noteq> ''.'' \<and> CHR ''/'' \<notin> set c"
    by (simp add: list_all_iff component_def)
  then have "filter (\<lambda>x. x \<noteq> [] \<and> x \<noteq> ''.'') cs = cs"
    by (simp add: filter_id_conv)
  with c splitroot_normal [OF assms] show ?thesis
    by (simp add: Path_def split_on_join [OF False])
qed

lemma Path_wf: "root (Path p) \<in> set path_roots \<and> list_all component (parts (Path p))"
proof -
  have "root (Path p) \<in> set path_roots"
    by (simp add: Path_def splitroot_def path_roots_def split: prod.splits)
  moreover have "list_all component (parts (Path p))"
    by (auto simp: Path_def list_all_iff component_def split: prod.splits dest: split_on_free)
  ultimately show ?thesis by simp
qed

lemma Path_dot: "Path ''.'' = \<lparr>root = [], parts = []\<rparr>"
  by (simp add: Path_def splitroot_def)

lemma Path_path_str:
  assumes "r \<in> set path_roots" and "list_all component cs"
  shows "Path (path_str \<lparr>root = r, parts = cs\<rparr>) = \<lparr>root = r, parts = cs\<rparr>"
proof (cases "r @ join_slash cs = []")
  case True
  then have "r = []" "join_slash cs = []" by simp_all
  moreover have "cs = []"
  proof (rule ccontr)
    assume ne: "cs \<noteq> []"
    with assms(2) have "hd cs \<noteq> []"
      by (cases cs) (auto simp: component_def)
    from join_slash_nonempty [OF ne this] \<open>join_slash cs = []\<close> show False by simp
  qed
  ultimately show ?thesis by (simp add: path_str_def Path_dot)
next
  case False
  then have "path_str \<lparr>root = r, parts = cs\<rparr> = r @ join_slash cs"
    by (simp add: path_str_def)
  then show ?thesis by (simp only: Path_normal [OF assms])
qed

lemma Path_idem: "Path (path_str (Path p)) = Path p"
proof -
  obtain r cs where q: "Path p = \<lparr>root = r, parts = cs\<rparr>"
    by (cases "Path p") simp
  with Path_wf [of p] have "r \<in> set path_roots" "list_all component cs" by simp_all
  from Path_path_str [OF this] q show ?thesis by simp
qed

lemma is_file_cases:
  "is_file fs fault q =
     (case (if CHR 0x00 \<in> set (path_str q) then None else fault (OpStat (path_str q))) of
        Some msg \<Rightarrow> Inl (OSError msg)
      | None \<Rightarrow> Inr (names_regular_file fs (path_str q)))"
  by (auto simp: is_file_def os_stat_def names_regular_file_def
      split: option.splits fs_node.splits)

text \<open>
  Claim C5, as amended. For every path \<open>p\<close>: when the \<open>stat\<close> of \<open>is_file()\<close> raises an
  \<open>OSError\<close> that \<open>pathlib\<close> does not swallow, the function raises it and there is no
  key. Otherwise the batching key is the parent directory when the path names a regular
  file on the host or its last component ends with one of the five media extensions, and
  the path itself, in normal form, in every other case: that of a directory such as
  \<open>/lib/showB\<close>, and also that of a path that does not exist on the plugin's host. The
  normal form has one of the three roots and components that are neither empty nor \<open>.\<close>;
  a path in normal form is its own normal form.
\<close>

theorem get_parent_path_key:
  "get_parent_path fs fault p =
     (case (if CHR 0x00 \<in> set (path_str (Path p)) then None
            else fault (OpStat (path_str (Path p)))) of
        Some msg \<Rightarrow> Inl (OSError msg)
      | None \<Rightarrow>
          Inr (if names_regular_file fs (path_str (Path p)) \<or> has_media_ext (path_name (Path p))
               then path_str (path_parent (Path p))
               else path_str (Path p))) \<and>
   root (Path p) \<in> set path_roots \<and> list_all component (parts (Path p)) \<and>
   path_str (Path p) =
     (if root (Path p) @ join_slash (parts (Path p)) = [] then ''.''
      else root (Path p) @ join_slash (parts (Path p))) \<and>
   path_str (path_parent (Path p)) =
     (if root (Path p) @ join_slash (butlast (parts (Path p))) = [] then ''.''
      else root (Path p) @ join_slash (butlast (parts (Path p)))) \<and>
   Path (path_str (Path p)) = Path p"
proof -
  have k: "get_parent_path fs fault p =
     (case (if CHR 0x00 \<in> set (path_str (Path p)) then None
            else fault (OpStat (path_str (Path p)))) of
        Some msg \<Rightarrow> Inl (OSError msg)
      | None \<Rightarrow>
          Inr (if names_regular_file fs (path_str (Path p)) \<or> has_media_ext (path_name (Path p))
               then path_str (path_parent (Path p))
               else path_str (Path p)))"
    by (simp add: get_parent_path_def Let_def is_file_cases split: option.splits)
  have par: "path_str (path_parent (Path p)) =
     (if root (Path p) @ join_slash (butlast (parts (Path p))) = [] then ''.''
      else root (Path p) @ join_slash (butlast (parts (Path p))))"
    by (simp add: path_parent_def path_str_def)
  from k par Path_wf [of p] Path_idem [of p] show ?thesis
    by (simp add: path_str_def)
qed

theorem get_parent_path_key_witness:
  "get_parent_path ((\<lambda>p. Missing)(''/lib/showB'' := Directory)) no_fault ''/lib/showB''
     = Inr ''/lib/showB'' \<and>
   get_parent_path ex_host no_fault ''/lib/showA/s01/e01.mkv'' = Inr ''/lib/showA/s01'' \<and>
   get_parent_path ex_host no_fault ''/lib/showB/'' = Inr ''/lib/showB'' \<and>
   get_parent_path ex_host no_fault ''show/e01.mkv'' = Inr ''show'' \<and>
   get_parent_path ex_fs no_fault ''/a'' = Inr ''/''"
proof -
  have P: "Path ''/lib/showB'' = \<lparr>root = ''/'', parts = [''lib'', ''showB'']\<rparr>"
    "Path ''/lib/showA/s01/e01.mkv'' =
       \<lparr>root = ''/'', parts = [''lib'', ''showA'', ''s01'', ''e01.mkv'']\<rparr>"
    "Path ''/lib/showB/'' = \<lparr>root = ''/'', parts = [''lib'', ''showB'']\<rparr>"
    "Path ''show/e01.mkv'' = \<lparr>root = [], parts = [''show'', ''e01.mkv'']\<rparr>"
    "Path ''/a'' = \<lparr>root = ''/'', parts = [''a'']\<rparr>"
    by (simp_all add: Path_def splitroot_def)
  have m: "\<not> has_media_ext ''showB''" "has_media_ext ''e01.mkv''" "\<not> has_media_ext ''a''"
    by (simp_all add: has_media_ext_def media_exts_def suffix_to_prefix)
  have f: "\<not> names_regular_file ((\<lambda>p. Missing)(''/lib/showB'' := Directory)) ''/lib/showB''"
    "\<not> names_regular_file ex_host ''/lib/showB''"
    "names_regular_file ex_fs ''/a''"
    by (simp_all add: names_regular_file_def follow_no_link ex_host_def ex_fs_def)
  show ?thesis
    using get_parent_path_key [of "(\<lambda>p. Missing)(''/lib/showB'' := Directory)" no_fault
        "''/lib/showB''"]
      get_parent_path_key [of ex_host no_fault "''/lib/showA/s01/e01.mkv''"]
      get_parent_path_key [of ex_host no_fault "''/lib/showB/''"]
      get_parent_path_key [of ex_host no_fault "''show/e01.mkv''"]
      get_parent_path_key [of ex_fs no_fault "''/a''"]
    by (simp add: P m f no_fault_def path_name_def)
qed

text \<open>
  Claim C5 as stated gives the parent directory to every path that is not a directory. A
  path that is not a directory, not an existing file and has no media extension (here a
  subtitle file of the media server's name space, absent from the plugin's host) is its
  own key.
\<close>

theorem get_parent_path_missing_counterexample:
  "\<not> is_dir ex_host (Path ''/lib/showA/e01.srt'') \<and>
   path_str (path_parent (Path ''/lib/showA/e01.srt'')) = ''/lib/showA'' \<and>
   get_parent_path ex_host no_fault ''/lib/showA/e01.srt'' = Inr ''/lib/showA/e01.srt''"
  by (simp add: get_parent_path_def Path_def splitroot_def path_str_def path_parent_def
      path_name_def is_file_def os_stat_def is_dir_def has_media_ext_def media_exts_def
      suffix_to_prefix ex_host_def no_fault_def follow_no_link)

text \<open>
  The key of a path in normal form, by its root and its components: the form in which
  \<open>schedule\<close> gets an absolute path such as \<open>/lib/showB\<close>, and a relative one.
\<close>

lemma get_parent_path_normal_form:
  assumes "r \<in> set path_roots" and "list_all component (cs @ [n])"
    and "CHR 0x00 \<in> set (r @ join_slash (cs @ [n])) \<or>
         fault (OpStat (r @ join_slash (cs @ [n]))) = None"
  shows "get_parent_path fs fault (r @ join_slash (cs @ [n])) =
           Inr (if names_regular_file fs (r @ join_slash (cs @ [n])) \<or> has_media_ext n
                then (if r @ join_slash cs = [] then ''.'' else r @ join_slash cs)
                else r @ join_slash (cs @ [n]))"
proof -
  have P: "Path (r @ join_slash (cs @ [n])) = \<lparr>root = r, parts = cs @ [n]\<rparr>"
    using assms by (intro Path_normal) simp_all
  from assms(2) have "n \<noteq> []" by (simp add: component_def)
  then have "join_slash (cs @ [n]) \<noteq> []"
    by (induction cs rule: join_slash.induct) auto
  then have s: "path_str \<lparr>root = r, parts = cs @ [n]\<rparr> = r @ join_slash (cs @ [n])"
    by (simp add: path_str_def)
  have par: "path_str (path_parent \<lparr>root = r, parts = cs @ [n]\<rparr>) =
      (if r @ join_slash cs = [] then ''.'' else r @ join_slash cs)"
    by (simp add: path_parent_def path_str_def)
  from assms(3) show ?thesis
    unfolding get_parent_path_def P Let_def is_file_cases s par
    by (auto simp: path_name_def)
qed

text \<open>
  Every key is a path in normal form, so the key of a directory is a fixed point: the key
  of \<open>/lib/showB/\<close> is \<open>/lib/showB\<close>, which is its own key.
\<close>

lemma get_parent_path_normalised:
  assumes "get_parent_path fs fault p = Inr k"
  shows "path_str (Path k) = k"
proof -
  obtain r cs where q: "Path p = \<lparr>root = r, parts = cs\<rparr>"
    by (cases "Path p") simp
  with Path_wf [of p] have wf: "r \<in> set path_roots" "list_all component cs" by simp_all
  from wf(2) have wf': "list_all component (butlast cs)"
    by (auto simp: list_all_iff dest: in_set_butlastD)
  from assms q have "k = path_str \<lparr>root = r, parts = cs\<rparr> \<or>
      k = path_str \<lparr>root = r, parts = butlast cs\<rparr>"
    by (auto simp: get_parent_path_def Let_def path_parent_def split: sum.splits if_splits)
  with Path_path_str [OF wf] Path_path_str [OF wf(1) wf'] show ?thesis
    by auto
qed

text \<open>
  On a POSIX host a Windows path is one single component, whose parent is \<open>.\<close>.
\<close>

lemma get_parent_path_backslashes:
  "get_parent_path ex_host no_fault (''E:'' @ [CHR 0x5C] @ ''videos'' @ [CHR 0x5C] @ ''e01.mkv'')
     = Inr ''.''"
  by (simp add: get_parent_path_def Path_def splitroot_def path_str_def path_parent_def
      path_name_def is_file_def os_stat_def has_media_ext_def media_exts_def suffix_to_prefix
      ex_host_def no_fault_def follow_no_link)

text \<open>
  Where the file system refuses the \<open>stat\<close> of a path, the function raises, and so do
  \<open>_schedule_batch_refresh\<close> and the handler, whose calls are not guarded: no key, no
  pending entry and no timer.
\<close>

lemma ex_long_name_path:
  "Path ex_long_name = \<lparr>root = ''/'', parts = [''lib'', replicate 256 CHR ''a'']\<rparr>"
proof -
  have c: "component (replicate 256 CHR ''a'')"
    by (auto simp: component_def dest: arg_cong [where f = length])
  have "ex_long_name = ''/'' @ join_slash [''lib'', replicate 256 CHR ''a'']"
    by (simp add: ex_long_name_def)
  moreover have "Path (''/'' @ join_slash [''lib'', replicate 256 CHR ''a'']) =
      \<lparr>root = ''/'', parts = [''lib'', replicate 256 CHR ''a'']\<rparr>"
    using c by (intro Path_normal) (simp_all add: path_roots_def component_def)
  ultimately show ?thesis by simp
qed

lemma get_parent_path_name_too_long:
  "get_parent_path ex_host ex_name_limit ex_long_name = Inl (OSError ''File name too long'')"
proof -
  have s: "path_str (Path ex_long_name) = ex_long_name"
    unfolding ex_long_name_path by (simp add: path_str_def ex_long_name_def)
  have "CHR 0x00 \<notin> set ex_long_name"
    by (simp add: ex_long_name_def)
  then show ?thesis
    unfolding get_parent_path_def Let_def is_file_cases s
    by (simp add: ex_name_limit_def)
qed

lemma schedule_name_too_long:
  "schedule_batch_refresh ex_host ex_name_limit ex_long_name s =
     Inl (OSError ''File name too long'')"
  by (simp add: schedule_batch_refresh_def get_parent_path_name_too_long)

end
